theory Spec2Isabelle
  imports Main
begin

section \<open>File names\<close>

text \<open>
  Names are byte strings. \<open>lower\<close> is Python's \<^verbatim>\<open>str.lower\<close> on the ASCII letters
  and leaves every other byte as it is. It serves the test
  \<^verbatim>\<open>endswith(('.xls', '.xlsx'))\<close> only, which sees no more of \<^verbatim>\<open>str.lower\<close>: no other
  character lowercases to one of \<open>x\<close>, \<open>l\<close>, \<open>s\<close> or the dot. The comparison of
  departamento names does not rest on it: there \<^verbatim>\<open>str.lower\<close> is a parameter, and
  \<open>lower\<close> stands for it only in examples whose names are ASCII, where the two agree.
\<close>

definition lower_char :: "char \<Rightarrow> char" where
  "lower_char c =
     (case map_of (zip ''ABCDEFGHIJKLMNOPQRSTUVWXYZ'' ''abcdefghijklmnopqrstuvwxyz'') c of
        Some l \<Rightarrow> l
      | None \<Rightarrow> c)"

definition lower :: "string \<Rightarrow> string" where
  "lower s = map lower_char s"

definition startswith :: "string \<Rightarrow> string \<Rightarrow> bool" where
  "startswith s p \<longleftrightarrow> take (length p) s = p"

definition endswith :: "string \<Rightarrow> string \<Rightarrow> bool" where
  "endswith s x \<longleftrightarrow> length x \<le> length s \<and> drop (length s - length x) s = x"

text \<open>
  \<^verbatim>\<open>os.path.splitext\<close> on a bare file name (the names \<^verbatim>\<open>os.listdir\<close> returns hold no
  path separator): the extension starts at the last dot, unless only dots stand before
  that dot, in which case the name has no extension.
\<close>

definition splitext :: "string \<Rightarrow> string \<times> string" where
  "splitext p =
     (case dropWhile (\<lambda>c. c \<noteq> CHR ''.'') (rev p) of
        [] \<Rightarrow> (p, [])
      | dot # stem_rev \<Rightarrow>
          if list_ex (\<lambda>c. c \<noteq> CHR ''.'') stem_rev
          then (rev stem_rev, dot # rev (takeWhile (\<lambda>c. c \<noteq> CHR ''.'') (rev p)))
          else (p, []))"

text \<open>The test of lines 179-181 on one new file name.\<close>

definition qualifies :: "string \<Rightarrow> bool" where
  "qualifies archivo \<longleftrightarrow>
     (endswith (lower archivo) ''.xls'' \<or> endswith (lower archivo) ''.xlsx'') \<and>
     \<not> startswith archivo ''~'' \<and>
     \<not> endswith archivo ''.crdownload''"

section \<open>The download directory\<close>

text \<open>
  The download directory is an association list from name to content, read through
  \<open>map_of\<close>; \<^verbatim>\<open>os.path.join(self.download_path, name)\<close> is the entry \<open>name\<close>. The order
  of the list stands for the order in which Python iterates the set of names, which the
  language leaves open.

  A name is plain when it holds no path separator of the platform. Joined to the
  directory, a plain name is a path inside it; a name with a separator is a path into
  another directory, which the environment may or may not hold; the empty name and the
  names \<^verbatim>\<open>.\<close> and \<^verbatim>\<open>..\<close> are paths of directories.
\<close>

type_synonym content = string
type_synonym directory = "(string \<times> content) list"

datatype os_error = FileNotFoundError | FileExistsError | PermissionError | NotADirectoryError

datatype platform = Posix | Windows

definition plain :: "platform \<Rightarrow> string \<Rightarrow> bool" where
  "plain pf n \<longleftrightarrow> CHR ''/'' \<notin> set n \<and> (pf = Posix \<or> CHR 0x5C \<notin> set n)"

definition names_a_directory :: "string \<Rightarrow> bool" where
  "names_a_directory n \<longleftrightarrow> n = [] \<or> n = ''.'' \<or> n = ''..''"

definition listdir :: "directory \<Rightarrow> string list" where
  "listdir d = remdups (map fst d)"

definition path_exists :: "directory \<Rightarrow> string \<Rightarrow> bool" where
  "path_exists d n \<longleftrightarrow> map_of d n \<noteq> None"

definition unlink :: "string \<Rightarrow> directory \<Rightarrow> directory" where
  "unlink n d = filter (\<lambda>e. fst e \<noteq> n) d"

text \<open>
  \<^verbatim>\<open>os.remove\<close> and \<^verbatim>\<open>os.rename\<close>. Both raise \<^verbatim>\<open>OSError\<close>: for a missing source, and
  whenever the operating system refuses the call (a file another process holds open, a
  permission, a name the file system does not take), which the flag \<open>denied\<close> of the
  environment decides. \<^verbatim>\<open>os.rename\<close> raises as well when the destination is the path of
  a directory, and when it has a path separator and the directory it points into does
  not exist, which the flag \<open>reachable\<close> of the environment decides. Renaming onto an
  existing name replaces it on POSIX and raises on Windows.
\<close>

definition os_remove :: "bool \<Rightarrow> directory \<Rightarrow> string \<Rightarrow> os_error + directory" where
  "os_remove denied d n =
     (if \<not> path_exists d n then Inl FileNotFoundError
      else if denied then Inl PermissionError
      else Inr (unlink n d))"

definition os_rename ::
  "platform \<Rightarrow> bool \<Rightarrow> bool \<Rightarrow> directory \<Rightarrow> string \<Rightarrow> string \<Rightarrow> os_error + directory" where
  "os_rename pf denied reachable d src dst =
     (case map_of d src of
        None \<Rightarrow> Inl FileNotFoundError
      | Some c \<Rightarrow>
          if denied then Inl PermissionError
          else if names_a_directory dst then Inl FileExistsError
          else if \<not> plain pf dst \<and> \<not> reachable then Inl FileNotFoundError
          else if pf = Windows \<and> src \<noteq> dst \<and> path_exists d dst then Inl FileExistsError
          else Inr ((dst, c) # unlink dst (unlink src d)))"

text \<open>
  What one look at \<^verbatim>\<open>self.download_path\<close> gives: the path does not exist, or it lists,
  or it exists and \<^verbatim>\<open>os.listdir\<close> raises.
\<close>

datatype obs = Absent | Listing directory | Unreadable os_error

definition lookup :: "obs \<Rightarrow> string \<Rightarrow> content option" where
  "lookup ob n = (case ob of Listing d \<Rightarrow> map_of d n | _ \<Rightarrow> None)"

text \<open>
  The world one call of \<^verbatim>\<open>wait_for_download_and_rename\<close> runs in. Time is counted in
  whole seconds since \<^verbatim>\<open>start_time\<close>: \<^verbatim>\<open>time.sleep(1)\<close> takes one second and nothing
  else takes time, so the poll after \<open>k\<close> sleeps sees \<open>polls w k\<close>. The browser and any
  other process change the directory freely between two polls; nothing but this function
  changes it between the poll that finds the file and the return. \<open>target_dir_exists\<close>
  says whether the directory exists that a target name with a path separator points into.
\<close>

record world =
  os :: platform
  snapshot :: obs
  polls :: "nat \<Rightarrow> obs"
  remove_denied :: bool
  rename_denied :: bool
  target_dir_exists :: bool

section \<open>wait\_for\_download\_and\_rename\<close>

datatype fs_op = Remove string | Rename string string

datatype log_event =
    Info_existing_removed string
  | Info_renamed string string
  | Error_renaming os_error
  | Error_no_download string
  | Error_waiting string os_error

text \<open>
  Lines 175-183: the new names of one poll, and the first of them that qualifies. A name
  that qualifies is not empty, so the test \<^verbatim>\<open>if nuevo_archivo\<close> of lines 185 and 190
  asks whether one was found.
\<close>

definition archivos_nuevos :: "string list \<Rightarrow> directory \<Rightarrow> string list" where
  "archivos_nuevos archivos_antes d = filter (\<lambda>a. a \<notin> set archivos_antes) (listdir d)"

definition seleccionar :: "string list \<Rightarrow> directory \<Rightarrow> string option" where
  "seleccionar archivos_antes d = find qualifies (archivos_nuevos archivos_antes d)"

text \<open>
  Lines 172-188, the polling loop, from \<open>elapsed\<close> seconds on. It ends with the file
  found, the directory it was found in and the seconds slept; or with the timeout; or
  with the exception of \<^verbatim>\<open>os.listdir\<close>.
\<close>

datatype detection = Found string directory nat | Not_found nat | Raised os_error nat

function poll :: "(nat \<Rightarrow> obs) \<Rightarrow> string list \<Rightarrow> int \<Rightarrow> nat \<Rightarrow> detection" where
  "poll env archivos_antes timeout elapsed =
     (if int elapsed < timeout then
        (case env elapsed of
           Absent \<Rightarrow> poll env archivos_antes timeout (Suc elapsed)
         | Unreadable e \<Rightarrow> Raised e elapsed
         | Listing d \<Rightarrow>
             (case seleccionar archivos_antes d of
                Some nuevo_archivo \<Rightarrow> Found nuevo_archivo d elapsed
              | None \<Rightarrow> poll env archivos_antes timeout (Suc elapsed)))
      else Not_found elapsed)"
  by pat_completeness auto

termination
  by (relation "measure (\<lambda>(env, archivos_antes, timeout, elapsed). nat (timeout - int elapsed))")
    auto

definition default_timeout :: int where
  "default_timeout = 30"

text \<open>
  What a call leaves behind: the value returned, the changes it made to the directory in
  order, the directory at the return, the lines logged and the seconds slept.
\<close>

record outcome =
  returned :: bool
  effects :: "fs_op list"
  disk :: obs
  log :: "log_event list"
  slept :: nat

text \<open>Lines 190-210: the file was found in directory \<open>d\<close> after \<open>k\<close> seconds.\<close>

definition renombrar :: "world \<Rightarrow> directory \<Rightarrow> string \<Rightarrow> string \<Rightarrow> nat \<Rightarrow> outcome" where
  "renombrar w d departamento_nombre nuevo_archivo k =
     (let extension = snd (splitext nuevo_archivo);
          nombre_nuevo = departamento_nombre @ extension
      in if path_exists d nombre_nuevo then
           (case os_remove (remove_denied w) d nombre_nuevo of
              Inl e \<Rightarrow>
                \<lparr>returned = False, effects = [], disk = Listing d,
                 log = [Error_renaming e], slept = k\<rparr>
            | Inr d1 \<Rightarrow>
                (case os_rename (os w) (rename_denied w) (target_dir_exists w) d1
                        nuevo_archivo nombre_nuevo of
                   Inl e \<Rightarrow>
                     \<lparr>returned = False, effects = [Remove nombre_nuevo], disk = Listing d1,
                      log = [Info_existing_removed nombre_nuevo, Error_renaming e], slept = k\<rparr>
                 | Inr d2 \<Rightarrow>
                     \<lparr>returned = True,
                      effects = [Remove nombre_nuevo, Rename nuevo_archivo nombre_nuevo],
                      disk = Listing d2,
                      log = [Info_existing_removed nombre_nuevo,
                             Info_renamed nuevo_archivo nombre_nuevo],
                      slept = k\<rparr>))
         else
           (case os_rename (os w) (rename_denied w) (target_dir_exists w) d
                   nuevo_archivo nombre_nuevo of
              Inl e \<Rightarrow>
                \<lparr>returned = False, effects = [], disk = Listing d,
                 log = [Error_renaming e], slept = k\<rparr>
            | Inr d2 \<Rightarrow>
                \<lparr>returned = True, effects = [Rename nuevo_archivo nombre_nuevo],
                 disk = Listing d2, log = [Info_renamed nuevo_archivo nombre_nuevo],
                 slept = k\<rparr>))"

text \<open>Line 166: the names present before the wait.\<close>

definition archivos_antes_de :: "obs \<Rightarrow> string list" where
  "archivos_antes_de ob = (case ob of Listing d \<Rightarrow> listdir d | _ \<Rightarrow> [])"

definition wait_for_download_and_rename :: "world \<Rightarrow> string \<Rightarrow> int \<Rightarrow> outcome" where
  "wait_for_download_and_rename w departamento_nombre timeout =
     (case snapshot w of
        Unreadable e \<Rightarrow>
          \<lparr>returned = False, effects = [], disk = snapshot w,
           log = [Error_waiting departamento_nombre e], slept = 0\<rparr>
      | _ \<Rightarrow>
          (case poll (polls w) (archivos_antes_de (snapshot w)) timeout 0 of
             Raised e k \<Rightarrow>
               \<lparr>returned = False, effects = [], disk = polls w k,
                log = [Error_waiting departamento_nombre e], slept = k\<rparr>
           | Not_found k \<Rightarrow>
               \<lparr>returned = False, effects = [], disk = polls w k,
                log = [Error_no_download departamento_nombre], slept = k\<rparr>
           | Found nuevo_archivo d k \<Rightarrow> renombrar w d departamento_nombre nuevo_archivo k))"

text \<open>
  The directory as the environment alone left it at the moment of the return: what
  \<open>disk\<close> is compared with to see the changes the call itself made.
\<close>

definition undisturbed :: "world \<Rightarrow> outcome \<Rightarrow> obs" where
  "undisturbed w r = (case snapshot w of Unreadable e \<Rightarrow> snapshot w | _ \<Rightarrow> polls w (slept r))"

text \<open>
  A poll that lets the loop go on to the next \<^verbatim>\<open>time.sleep(1)\<close>: the directory is
  missing, or no new name in it qualifies.
\<close>

definition quiet :: "string list \<Rightarrow> obs \<Rightarrow> bool" where
  "quiet archivos_antes ob =
     (case ob of
        Absent \<Rightarrow> True
      | Listing d \<Rightarrow> seleccionar archivos_antes d = None
      | Unreadable e \<Rightarrow> False)"

section \<open>One region\<close>

record departamento =
  codigo :: string
  nombre :: string

text \<open>
  Lines 286-318 drive the browser: select the region, search, wait for the grid, click
  the export button. The browser is outside the program, so its answer is given: every
  step went through, or a wait raised \<^verbatim>\<open>TimeoutException\<close>, or some step raised another
  exception.
\<close>

datatype ui_result = Export_clicked | Ui_timeout | Ui_error

record region_world =
  ui :: ui_result
  files :: world

text \<open>The last line \<^verbatim>\<open>download_departamento_data\<close> logs (lines 323, 326, 330, 333).\<close>

datatype attempt_log = Completada | Fallo_descarga | Timeout_procesando | Error_procesando

record attempt =
  succeeded :: bool
  final_line :: attempt_log
  watch :: "outcome option"

definition download_departamento_data :: "region_world \<Rightarrow> departamento \<Rightarrow> attempt" where
  "download_departamento_data rw dept =
     (case ui rw of
        Ui_timeout \<Rightarrow> \<lparr>succeeded = False, final_line = Timeout_procesando, watch = None\<rparr>
      | Ui_error \<Rightarrow> \<lparr>succeeded = False, final_line = Error_procesando, watch = None\<rparr>
      | Export_clicked \<Rightarrow>
          (let r = wait_for_download_and_rename (files rw) (nombre dept) default_timeout
           in if returned r
              then \<lparr>succeeded = True, final_line = Completada, watch = Some r\<rparr>
              else \<lparr>succeeded = False, final_line = Fallo_descarga, watch = Some r\<rparr>))"

section \<open>The batches\<close>

text \<open>
  \<^verbatim>\<open>setup_driver\<close> raises before \<^verbatim>\<open>self.driver\<close> is assigned (no driver could be
  installed or started), or after it (\<^verbatim>\<open>maximize_window\<close> raised), or returns. The
  browser session it starts is known by a number.
\<close>

type_synonym session = nat

datatype setup_result = Setup_raises | Setup_raises_with session | Setup_ok session

text \<open>
  The browser and the site as one batch meets them: what \<^verbatim>\<open>setup_driver\<close>,
  \<^verbatim>\<open>navigate_to_servicios_page\<close> and \<^verbatim>\<open>get_departamentos_list\<close> answer, and the world of
  the attempt at each position of the loop, counted from 0.
\<close>

record browser =
  setup_driver :: setup_result
  navigate_to_servicios_page :: bool
  get_departamentos_list :: "departamento list"
  regions :: "nat \<Rightarrow> region_world"

text \<open>What a batch does, in order, as far as the program itself does it.\<close>

datatype event =
    Navigate bool
  | Get_catalog nat
  | Log_error_navigation
  | Log_error_catalog
  | Log_error_no_match
  | Log_start nat
  | Log_progress nat nat string
  | Attempt departamento attempt
  | Log_waiting
  | Sleep nat
  | Log_summary nat nat
  | Log_error_exception
  | Quit session

record batch =
  trace :: "event list"
  driver :: "session option"

text \<open>Lines 380-382 and 424-426: the \<^verbatim>\<open>finally\<close> clause.\<close>

definition finally_quit :: "session option \<Rightarrow> event list" where
  "finally_quit drv = (case drv of None \<Rightarrow> [] | Some s \<Rightarrow> [Quit s])"

text \<open>
  Lines 363-374: the loop of the full batch over the departamentos left, \<open>i\<close> the count
  of \<^verbatim>\<open>enumerate(departamentos, 1)\<close> and \<open>n\<close> the length of the whole list. It gives the
  events and the two counters.
\<close>

fun loop_all ::
  "(nat \<Rightarrow> region_world) \<Rightarrow> nat \<Rightarrow> nat \<Rightarrow> departamento list \<Rightarrow> nat \<Rightarrow> nat \<Rightarrow>
     event list \<times> nat \<times> nat" where
  "loop_all rw n i [] successful_downloads failed_downloads =
     ([], successful_downloads, failed_downloads)"
| "loop_all rw n i (dept # rest) successful_downloads failed_downloads =
     (let a = download_departamento_data (rw (i - 1)) dept
      in case loop_all rw n (i + 1) rest
             (if succeeded a then successful_downloads + 1 else successful_downloads)
             (if succeeded a then failed_downloads else failed_downloads + 1) of
           (evs, counters) \<Rightarrow>
             (Log_progress i n (nombre dept) # Attempt dept a #
                (if i < n then [Log_waiting, Sleep 3] else []) @ evs,
              counters))"

definition download_all_departamentos :: "browser \<Rightarrow> session option \<Rightarrow> batch" where
  "download_all_departamentos b driver0 =
     (case setup_driver b of
        Setup_raises \<Rightarrow>
          \<lparr>trace = Log_error_exception # finally_quit driver0, driver = driver0\<rparr>
      | Setup_raises_with s \<Rightarrow>
          \<lparr>trace = Log_error_exception # finally_quit (Some s), driver = Some s\<rparr>
      | Setup_ok s \<Rightarrow>
          (let departamentos = get_departamentos_list b;
               body =
                 (if \<not> navigate_to_servicios_page b then [Navigate False, Log_error_navigation]
                  else if departamentos = []
                  then [Navigate True, Get_catalog 0, Log_error_catalog]
                  else
                    (case loop_all (regions b) (length departamentos) 1 departamentos 0 0 of
                       (evs, successful_downloads, failed_downloads) \<Rightarrow>
                         [Navigate True, Get_catalog (length departamentos),
                          Log_start (length departamentos)] @ evs @
                         [Log_summary successful_downloads failed_downloads]))
           in \<lparr>trace = body @ finally_quit (Some s), driver = Some s\<rparr>))"

text \<open>
  Lines 407-410: the departamentos of the catalog whose name was asked for. Both sides
  are compared after \<^verbatim>\<open>str.lower\<close>, Python's own function on Unicode strings, which the
  program does not define: it is the parameter \<open>str_lower\<close>.
\<close>

definition departamentos_a_descargar ::
  "(string \<Rightarrow> string) \<Rightarrow> departamento list \<Rightarrow> string list \<Rightarrow> departamento list" where
  "departamentos_a_descargar str_lower todos_departamentos departamentos_nombres =
     filter (\<lambda>dept. str_lower (nombre dept) \<in> set (map str_lower departamentos_nombres))
       todos_departamentos"

text \<open>Lines 418-420: the loop of the filtered batch, from position \<open>i\<close> on.\<close>

fun loop_specific :: "(nat \<Rightarrow> region_world) \<Rightarrow> nat \<Rightarrow> departamento list \<Rightarrow> event list" where
  "loop_specific rw i [] = []"
| "loop_specific rw i (dept # rest) =
     Attempt dept (download_departamento_data (rw i) dept) # Sleep 3 #
       loop_specific rw (Suc i) rest"

definition download_specific_departamentos ::
  "(string \<Rightarrow> string) \<Rightarrow> browser \<Rightarrow> session option \<Rightarrow> string list \<Rightarrow> batch" where
  "download_specific_departamentos str_lower b driver0 departamentos_nombres =
     (case setup_driver b of
        Setup_raises \<Rightarrow>
          \<lparr>trace = Log_error_exception # finally_quit driver0, driver = driver0\<rparr>
      | Setup_raises_with s \<Rightarrow>
          \<lparr>trace = Log_error_exception # finally_quit (Some s), driver = Some s\<rparr>
      | Setup_ok s \<Rightarrow>
          (let todos_departamentos = get_departamentos_list b;
               a_descargar =
                 departamentos_a_descargar str_lower todos_departamentos departamentos_nombres;
               body =
                 (if \<not> navigate_to_servicios_page b then [Navigate False, Log_error_navigation]
                  else if todos_departamentos = []
                  then [Navigate True, Get_catalog 0, Log_error_catalog]
                  else if a_descargar = []
                  then [Navigate True, Get_catalog (length todos_departamentos),
                        Log_error_no_match]
                  else
                    [Navigate True, Get_catalog (length todos_departamentos),
                     Log_start (length a_descargar)] @
                    loop_specific (regions b) 0 a_descargar)
           in \<lparr>trace = body @ finally_quit (Some s), driver = Some s\<rparr>))"

section \<open>Reading a trace\<close>

text \<open>The attempts of a trace in order, its batch-level pauses, its releases of a session.\<close>

fun attempts :: "event list \<Rightarrow> (departamento \<times> attempt) list" where
  "attempts [] = []"
| "attempts (Attempt dept a # evs) = (dept, a) # attempts evs"
| "attempts (ev # evs) = attempts evs"

fun quits :: "event list \<Rightarrow> session list" where
  "quits [] = []"
| "quits (Quit s # evs) = s # quits evs"
| "quits (ev # evs) = quits evs"

datatype step = Try | Pause nat

fun steps :: "event list \<Rightarrow> step list" where
  "steps [] = []"
| "steps (Attempt dept a # evs) = Try # steps evs"
| "steps (Sleep t # evs) = Pause t # steps evs"
| "steps (ev # evs) = steps evs"

fun summaries :: "event list \<Rightarrow> (nat \<times> nat) list" where
  "summaries [] = []"
| "summaries (Log_summary s f # evs) = (s, f) # summaries evs"
| "summaries (ev # evs) = summaries evs"

text \<open>\<open>n\<close> attempts with a pause of \<open>t\<close> seconds between two of them and none after the last.\<close>

fun paced :: "nat \<Rightarrow> nat \<Rightarrow> step list" where
  "paced t 0 = []"
| "paced t (Suc 0) = [Try]"
| "paced t (Suc (Suc n)) = Try # Pause t # paced t (Suc n)"

text \<open>The session a call of \<^verbatim>\<open>setup_driver\<close> left in \<^verbatim>\<open>self.driver\<close>, if any.\<close>

fun acquired :: "setup_result \<Rightarrow> session option" where
  "acquired Setup_raises = None"
| "acquired (Setup_raises_with s) = Some s"
| "acquired (Setup_ok s) = Some s"

text \<open>
  The attempts a loop over \<open>depts\<close> is to make when its first attempt stands at position
  \<open>i\<close>: one for each departamento, in order, each in the world of its position.
\<close>

fun attempts_of ::
  "(nat \<Rightarrow> region_world) \<Rightarrow> nat \<Rightarrow> departamento list \<Rightarrow> (departamento \<times> attempt) list" where
  "attempts_of rw i [] = []"
| "attempts_of rw i (dept # rest) =
     (dept, download_departamento_data (rw i) dept) # attempts_of rw (Suc i) rest"

section \<open>Example worlds\<close>

text \<open>Nothing but a partial download ever appears.\<close>

definition scenario_nothing :: world where
  "scenario_nothing =
     \<lparr>os = Windows, snapshot = Listing [(''notas.txt'', ''n'')],
      polls = (\<lambda>k. Listing [(''notas.txt'', ''n''), (''export.xls.crdownload'', ''p'')]),
      remove_denied = False, rename_denied = False, target_dir_exists = False\<rparr>"

text \<open>
  \<^verbatim>\<open>export.xls\<close> appears after two seconds, beside an \<^verbatim>\<open>Antioquia.xls\<close> of an earlier run.
\<close>

definition scenario_replace :: world where
  "scenario_replace =
     \<lparr>os = Windows,
      snapshot = Listing [(''Antioquia.xls'', ''old''), (''notas.txt'', ''n'')],
      polls = (\<lambda>k. if k < 2 then Listing [(''Antioquia.xls'', ''old''), (''notas.txt'', ''n'')]
                    else Listing [(''Antioquia.xls'', ''old''), (''notas.txt'', ''n''),
                                  (''export.xls'', ''new'')]),
      remove_denied = False, rename_denied = False, target_dir_exists = False\<rparr>"

text \<open>
  \<^verbatim>\<open>export.xls\<close> appears after one second beside an older \<^verbatim>\<open>Antioquia.xls\<close>, and the
  operating system refuses to rename it (the browser still holds it open).
\<close>

definition scenario_locked :: world where
  "scenario_locked =
     \<lparr>os = Windows,
      snapshot = Listing [(''Antioquia.xls'', ''old'')],
      polls = (\<lambda>k. if k < 1 then Listing [(''Antioquia.xls'', ''old'')]
                    else Listing [(''Antioquia.xls'', ''old''), (''export.xls'', ''new'')]),
      remove_denied = False, rename_denied = True, target_dir_exists = False\<rparr>"

text \<open>Two spreadsheets appear between the snapshot and the first poll.\<close>

definition scenario_two_new :: world where
  "scenario_two_new =
     \<lparr>os = Posix,
      snapshot = Listing [],
      polls = (\<lambda>k. Listing [(''a.xls'', ''1''), (''b.xls'', ''2'')]),
      remove_denied = False, rename_denied = False, target_dir_exists = False\<rparr>"

text \<open>The export arrives at once as \<^verbatim>\<open>export.xls\<close> in an empty directory.\<close>

definition scenario_arrives :: world where
  "scenario_arrives =
     \<lparr>os = Windows, snapshot = Listing [],
      polls = (\<lambda>k. Listing [(''export.xls'', ''data'')]),
      remove_denied = False, rename_denied = False, target_dir_exists = False\<rparr>"

text \<open>
  A catalog of three departamentos; the export button of the second one never becomes
  clickable, the other two exports arrive.
\<close>

definition browser_abc :: browser where
  "browser_abc =
     \<lparr>setup_driver = Setup_ok 7,
      navigate_to_servicios_page = True,
      get_departamentos_list =
        [\<lparr>codigo = ''05'', nombre = ''Antioquia''\<rparr>,
         \<lparr>codigo = ''15'', nombre = ''Boyaca''\<rparr>,
         \<lparr>codigo = ''17'', nombre = ''Caldas''\<rparr>],
      regions = (\<lambda>i. if i = 1 then \<lparr>ui = Ui_timeout, files = scenario_arrives\<rparr>
                      else \<lparr>ui = Export_clicked, files = scenario_arrives\<rparr>)\<rparr>"

text \<open>The browser delivers the export under the very name the file is to get.\<close>

definition scenario_same_name :: world where
  "scenario_same_name =
     \<lparr>os = Windows, snapshot = Listing [],
      polls = (\<lambda>k. Listing [(''Antioquia.xls'', ''data'')]),
      remove_denied = False, rename_denied = False, target_dir_exists = False\<rparr>"

text \<open>No driver can be installed: \<^verbatim>\<open>setup_driver\<close> raises before it starts a browser.\<close>

definition browser_down :: browser where
  "browser_down =
     \<lparr>setup_driver = Setup_raises,
      navigate_to_servicios_page = False,
      get_departamentos_list = [],
      regions = (\<lambda>i. \<lparr>ui = Ui_error, files = scenario_nothing\<rparr>)\<rparr>"

declare poll.simps [simp del]

section \<open>Facts about the polling loop and the directory\<close>

lemma poll_Found:
  "poll env antes t e = Found a d k \<Longrightarrow>
     e \<le> k \<and> int k < t \<and> env k = Listing d \<and> seleccionar antes d = Some a"
proof (induction env antes t e rule: poll.induct)
  case (1 env antes t e)
  show ?case
  proof (cases "int e < t")
    case False
    with "1.prems" show ?thesis by (simp add: poll.simps)
  next
    case True
    show ?thesis
    proof (cases "env e")
      case Absent
      with True "1.prems" have "poll env antes t (Suc e) = Found a d k"
        by (simp add: poll.simps [of env antes t e])
      with "1.IH"(1) [OF True Absent] show ?thesis by simp
    next
      case (Unreadable x)
      with True "1.prems" show ?thesis by (simp add: poll.simps [of env antes t e])
    next
      case (Listing d0)
      show ?thesis
      proof (cases "seleccionar antes d0")
        case None
        with True Listing "1.prems" have "poll env antes t (Suc e) = Found a d k"
          by (simp add: poll.simps [of env antes t e])
        with "1.IH"(2) [OF True Listing None] show ?thesis by simp
      next
        case (Some b)
        with True Listing "1.prems" show ?thesis
          by (simp add: poll.simps [of env antes t e])
      qed
    qed
  qed
qed

lemma poll_Raised:
  "poll env antes t e = Raised x k \<Longrightarrow> e \<le> k \<and> int k < t \<and> env k = Unreadable x"
proof (induction env antes t e rule: poll.induct)
  case (1 env antes t e)
  show ?case
  proof (cases "int e < t")
    case False
    with "1.prems" show ?thesis by (simp add: poll.simps)
  next
    case True
    show ?thesis
    proof (cases "env e")
      case Absent
      with True "1.prems" have "poll env antes t (Suc e) = Raised x k"
        by (simp add: poll.simps [of env antes t e])
      with "1.IH"(1) [OF True Absent] show ?thesis by simp
    next
      case (Unreadable y)
      with True "1.prems" show ?thesis by (simp add: poll.simps [of env antes t e])
    next
      case (Listing d0)
      show ?thesis
      proof (cases "seleccionar antes d0")
        case None
        with True Listing "1.prems" have "poll env antes t (Suc e) = Raised x k"
          by (simp add: poll.simps [of env antes t e])
        with "1.IH"(2) [OF True Listing None] show ?thesis by simp
      next
        case (Some b)
        with True Listing "1.prems" show ?thesis
          by (simp add: poll.simps [of env antes t e])
      qed
    qed
  qed
qed

lemma poll_Not_found:
  "poll env antes t e = Not_found k \<Longrightarrow>
     k = max e (nat t) \<and> (\<forall>j. e \<le> j \<and> j < k \<longrightarrow> quiet antes (env j))"
proof (induction env antes t e rule: poll.induct)
  case (1 env antes t e)
  show ?case
  proof (cases "int e < t")
    case False
    with "1.prems" show ?thesis by (auto simp add: poll.simps)
  next
    case True
    show ?thesis
    proof (cases "env e")
      case Absent
      with True "1.prems" have "poll env antes t (Suc e) = Not_found k"
        by (simp add: poll.simps [of env antes t e])
      with "1.IH"(1) [OF True Absent]
      have k: "k = max (Suc e) (nat t)" and q: "\<forall>j. Suc e \<le> j \<and> j < k \<longrightarrow> quiet antes (env j)"
        by simp_all
      have "quiet antes (env e)" using Absent by (simp add: quiet_def)
      with q have "\<forall>j. e \<le> j \<and> j < k \<longrightarrow> quiet antes (env j)"
        by (metis Suc_leI le_neq_implies_less)
      with k True show ?thesis by auto
    next
      case (Unreadable y)
      with True "1.prems" show ?thesis by (simp add: poll.simps [of env antes t e])
    next
      case (Listing d0)
      show ?thesis
      proof (cases "seleccionar antes d0")
        case None
        with True Listing "1.prems" have "poll env antes t (Suc e) = Not_found k"
          by (simp add: poll.simps [of env antes t e])
        with "1.IH"(2) [OF True Listing None]
        have k: "k = max (Suc e) (nat t)" and q: "\<forall>j. Suc e \<le> j \<and> j < k \<longrightarrow> quiet antes (env j)"
          by simp_all
        have "quiet antes (env e)" using Listing None by (simp add: quiet_def)
        with q have "\<forall>j. e \<le> j \<and> j < k \<longrightarrow> quiet antes (env j)"
          by (metis Suc_leI le_neq_implies_less)
        with k True show ?thesis by auto
      next
        case (Some b)
        with True Listing "1.prems" show ?thesis
          by (simp add: poll.simps [of env antes t e])
      qed
    qed
  qed
qed

lemma poll_first:
  "e \<le> k \<Longrightarrow> int k < t \<Longrightarrow> \<forall>j. e \<le> j \<and> j < k \<longrightarrow> quiet antes (env j) \<Longrightarrow>
   env k = Listing d \<Longrightarrow> seleccionar antes d = Some a \<Longrightarrow>
   poll env antes t e = Found a d k"
proof (induction env antes t e rule: poll.induct)
  case (1 env antes t e)
  from "1.prems" have lt: "int e < t" by simp
  show ?case
  proof (cases "e = k")
    case True
    with "1.prems" lt show ?thesis by (simp add: poll.simps [of env antes t k])
  next
    case False
    with "1.prems" have ek: "e < k" and se: "Suc e \<le> k" by simp_all
    with "1.prems" have qe: "quiet antes (env e)" by simp
    from "1.prems" have rest: "\<forall>j. Suc e \<le> j \<and> j < k \<longrightarrow> quiet antes (env j)" by simp
    show ?thesis
    proof (cases "env e")
      case Absent
      from "1.IH"(1) [OF lt Absent se "1.prems"(2) rest "1.prems"(4) "1.prems"(5)]
      show ?thesis using lt Absent by (simp add: poll.simps [of env antes t e])
    next
      case (Unreadable y)
      with qe show ?thesis by (simp add: quiet_def)
    next
      case (Listing d0)
      with qe have None: "seleccionar antes d0 = None" by (simp add: quiet_def)
      from "1.IH"(2) [OF lt Listing None se "1.prems"(2) rest "1.prems"(4) "1.prems"(5)]
      show ?thesis using lt Listing None by (simp add: poll.simps [of env antes t e])
    qed
  qed
qed


lemma map_of_unlink: "map_of (unlink n d) m = (if m = n then None else map_of d m)"
  by (induction d) (auto simp: unlink_def)

lemma set_listdir: "set (listdir d) = fst ` set d"
  by (simp add: listdir_def)

lemma distinct_listdir: "distinct (listdir d)"
  by (simp add: listdir_def)

lemma in_listdir_iff: "n \<in> set (listdir d) \<longleftrightarrow> map_of d n \<noteq> None"
  by (simp add: set_listdir map_of_eq_None_iff)

lemma os_remove_Inr:
  "os_remove den d n = Inr d1 \<Longrightarrow> d1 = unlink n d \<and> path_exists d n \<and> \<not> den"
  by (auto simp: os_remove_def split: if_splits)

lemma os_rename_Inr:
  "os_rename pf den rch d src dst = Inr d2 \<Longrightarrow>
     \<exists>c. map_of d src = Some c \<and> d2 = (dst, c) # unlink dst (unlink src d) \<and> \<not> den \<and>
         \<not> names_a_directory dst \<and> (plain pf dst \<or> rch)"
  by (auto simp: os_rename_def split: option.splits if_splits)

lemma find_Some_hd: "find P xs = Some x \<longleftrightarrow> filter P xs \<noteq> [] \<and> x = hd (filter P xs)"
  by (induction xs) auto

lemma find_Some_in: "find P xs = Some x \<Longrightarrow> P x \<and> x \<in> set xs"
  by (induction xs) (auto split: if_splits)

lemma seleccionar_Some:
  "seleccionar antes d = Some a \<Longrightarrow> qualifies a \<and> a \<in> set (listdir d) \<and> a \<notin> set antes"
  by (auto simp: seleccionar_def archivos_nuevos_def dest: find_Some_in)

lemma renombrar_slept: "slept (renombrar w d nom a k) = k"
  by (simp add: renombrar_def Let_def split: sum.splits)

lemma renombrar_effects:
  "\<exists>rm. (rm \<longrightarrow> path_exists d (nom @ snd (splitext a))) \<and>
     effects (renombrar w d nom a k) =
       (if rm then [Remove (nom @ snd (splitext a))] else []) @
       (if returned (renombrar w d nom a k) then [Rename a (nom @ snd (splitext a))] else [])"
proof (cases "path_exists d (nom @ snd (splitext a))")
  case False
  then show ?thesis
    by (intro exI [of _ False]) (simp add: renombrar_def Let_def split: sum.splits)
next
  case True
  show ?thesis
  proof (cases "os_remove (remove_denied w) d (nom @ snd (splitext a))")
    case (Inl e)
    with True show ?thesis
      by (intro exI [of _ False]) (simp add: renombrar_def Let_def)
  next
    case (Inr d1)
    with True show ?thesis
      by (intro exI [of _ True]) (simp add: renombrar_def Let_def split: sum.splits)
  qed
qed

lemma renombrar_frame:
  "\<exists>d'. disk (renombrar w d nom a k) = Listing d' \<and>
     (\<forall>n. n \<noteq> a \<and> n \<noteq> nom @ snd (splitext a) \<longrightarrow> map_of d' n = map_of d n)"
  by (auto simp: renombrar_def Let_def map_of_unlink split: sum.splits
        dest!: os_remove_Inr os_rename_Inr)

lemma renombrar_success:
  assumes ret: "returned (renombrar w d nom a k)"
  shows "\<exists>d' c. disk (renombrar w d nom a k) = Listing d' \<and>
     a \<noteq> nom @ snd (splitext a) \<and> map_of d a = Some c \<and>
     map_of d' (nom @ snd (splitext a)) = Some c \<and> map_of d' a = None \<and>
     effects (renombrar w d nom a k) =
       (if path_exists d (nom @ snd (splitext a)) then [Remove (nom @ snd (splitext a))] else []) @
       [Rename a (nom @ snd (splitext a))]"
proof -
  define T where "T = nom @ snd (splitext a)"
  show ?thesis
  proof (cases "path_exists d T")
    case True
    from ret True obtain d1 where rm: "os_remove (remove_denied w) d T = Inr d1"
      by (cases "os_remove (remove_denied w) d T") (simp_all add: renombrar_def Let_def T_def)
    from ret True rm obtain d2 where rn: "os_rename (os w) (rename_denied w) (target_dir_exists w) d1 a T = Inr d2"
      by (cases "os_rename (os w) (rename_denied w) (target_dir_exists w) d1 a T")
        (simp_all add: renombrar_def Let_def T_def)
    from rm have d1: "d1 = unlink T d" by (simp add: os_remove_Inr)
    from os_rename_Inr [OF rn] obtain c where
      c: "map_of d1 a = Some c" and d2: "d2 = (T, c) # unlink T (unlink a d1)" by blast
    from c d1 have neq: "a \<noteq> T" and ca: "map_of d a = Some c"
      by (auto simp: map_of_unlink split: if_splits)
    have r: "renombrar w d nom a k =
       \<lparr>returned = True, effects = [Remove T, Rename a T], disk = Listing d2,
        log = [Info_existing_removed T, Info_renamed a T], slept = k\<rparr>"
      using True rm rn by (simp add: renombrar_def Let_def T_def)
    from neq have "map_of d2 a = None" by (simp add: d2 map_of_unlink)
    moreover have "map_of d2 T = Some c" by (simp add: d2)
    ultimately show ?thesis using r neq ca True unfolding T_def by simp
  next
    case False
    from ret False obtain d2 where rn: "os_rename (os w) (rename_denied w) (target_dir_exists w) d a T = Inr d2"
      by (cases "os_rename (os w) (rename_denied w) (target_dir_exists w) d a T")
        (simp_all add: renombrar_def Let_def T_def)
    from os_rename_Inr [OF rn] obtain c where
      ca: "map_of d a = Some c" and d2: "d2 = (T, c) # unlink T (unlink a d)" by blast
    from ca False have neq: "a \<noteq> T" by (auto simp: path_exists_def)
    have r: "renombrar w d nom a k =
       \<lparr>returned = True, effects = [Rename a T], disk = Listing d2,
        log = [Info_renamed a T], slept = k\<rparr>"
      using False rn by (simp add: renombrar_def Let_def T_def)
    from neq have "map_of d2 a = None" by (simp add: d2 map_of_unlink)
    moreover have "map_of d2 T = Some c" by (simp add: d2)
    ultimately show ?thesis using r neq ca False unfolding T_def by simp
  qed
qed

lemma wait_cases:
  obtains
    (snap) e where "snapshot w = Unreadable e"
      "wait_for_download_and_rename w nom t =
         \<lparr>returned = False, effects = [], disk = snapshot w,
          log = [Error_waiting nom e], slept = 0\<rparr>"
  | (raised) e k where "\<forall>x. snapshot w \<noteq> Unreadable x"
      "poll (polls w) (archivos_antes_de (snapshot w)) t 0 = Raised e k"
      "wait_for_download_and_rename w nom t =
         \<lparr>returned = False, effects = [], disk = polls w k,
          log = [Error_waiting nom e], slept = k\<rparr>"
  | (timeout) k where "\<forall>x. snapshot w \<noteq> Unreadable x"
      "poll (polls w) (archivos_antes_de (snapshot w)) t 0 = Not_found k"
      "wait_for_download_and_rename w nom t =
         \<lparr>returned = False, effects = [], disk = polls w k,
          log = [Error_no_download nom], slept = k\<rparr>"
  | (found) a d k where "\<forall>x. snapshot w \<noteq> Unreadable x"
      "poll (polls w) (archivos_antes_de (snapshot w)) t 0 = Found a d k"
      "wait_for_download_and_rename w nom t = renombrar w d nom a k"
proof (cases "snapshot w")
  case (Unreadable e)
  then show ?thesis using snap [of e]
    by (simp add: wait_for_download_and_rename_def)
next
  case Absent
  then have ns: "\<forall>x. snapshot w \<noteq> Unreadable x" by simp
  show ?thesis
  proof (cases "poll (polls w) (archivos_antes_de (snapshot w)) t 0")
    case (Found a d k)
    with Absent ns found [of a d k] show ?thesis
      by (simp add: wait_for_download_and_rename_def)
  next
    case (Not_found k)
    with Absent ns timeout [of k] show ?thesis
      by (simp add: wait_for_download_and_rename_def)
  next
    case (Raised e k)
    with Absent ns raised [of e k] show ?thesis
      by (simp add: wait_for_download_and_rename_def)
  qed
next
  case (Listing d0)
  then have ns: "\<forall>x. snapshot w \<noteq> Unreadable x" by simp
  show ?thesis
  proof (cases "poll (polls w) (archivos_antes_de (snapshot w)) t 0")
    case (Found a d k)
    with Listing ns found [of a d k] show ?thesis
      by (simp add: wait_for_download_and_rename_def)
  next
    case (Not_found k)
    with Listing ns timeout [of k] show ?thesis
      by (simp add: wait_for_download_and_rename_def)
  next
    case (Raised e k)
    with Listing ns raised [of e k] show ?thesis
      by (simp add: wait_for_download_and_rename_def)
  qed
qed

lemma undisturbed_polls: "\<forall>x. snapshot w \<noteq> Unreadable x \<Longrightarrow> undisturbed w r = polls w (slept r)"
  by (cases "snapshot w") (simp_all add: undisturbed_def)

lemma undisturbed_snapshot: "snapshot w = Unreadable e \<Longrightarrow> undisturbed w r = snapshot w"
  by (simp add: undisturbed_def)



section \<open>Properties of wait\_for\_download\_and\_rename\<close>

text \<open>
  C2. A run in which no poll before the timeout sees a new file that qualifies returns
  failure and changes nothing in the directory: it performs no removal and no rename,
  and the directory at the return is the one the environment left. It passes through the
  loop once, sleeping at most \<open>timeout\<close> seconds; when no listing raises it sleeps
  exactly \<open>timeout\<close> seconds and logs that no download was detected. The default
  timeout is 30 seconds.
\<close>

theorem timeout_fails_without_mutation:
  assumes "\<forall>k d. int k < timeout \<and> polls w k = Listing d \<longrightarrow>
             seleccionar (archivos_antes_de (snapshot w)) d = None"
  shows "\<not> returned (wait_for_download_and_rename w nom timeout) \<and>
         effects (wait_for_download_and_rename w nom timeout) = [] \<and>
         disk (wait_for_download_and_rename w nom timeout) =
           undisturbed w (wait_for_download_and_rename w nom timeout) \<and>
         slept (wait_for_download_and_rename w nom timeout) \<le> nat timeout \<and>
         ((\<forall>e. snapshot w \<noteq> Unreadable e) \<and> (\<forall>k e. int k < timeout \<longrightarrow> polls w k \<noteq> Unreadable e) \<longrightarrow>
            slept (wait_for_download_and_rename w nom timeout) = nat timeout \<and>
            log (wait_for_download_and_rename w nom timeout) = [Error_no_download nom])"
proof (cases rule: wait_cases [of w nom timeout])
  case (snap e)
  then show ?thesis by (simp add: undisturbed_def)
next
  case (raised e k)
  from poll_Raised [OF raised(2)] have "int k < timeout" "polls w k = Unreadable e" by simp_all
  with raised show ?thesis by (auto simp: undisturbed_polls)
next
  case (timeout k)
  from poll_Not_found [OF timeout(2)] have "k = nat timeout" by simp
  with timeout show ?thesis by (simp add: undisturbed_polls)
next
  case (found a d k)
  from poll_Found [OF found(2)] assms show ?thesis by auto
qed

theorem timeout_fails_without_mutation_witness:
  "(\<forall>k. polls scenario_nothing k =
      Listing [(''notas.txt'', ''n''), (''export.xls.crdownload'', ''p'')]) \<and>
   seleccionar (archivos_antes_de (snapshot scenario_nothing))
     [(''notas.txt'', ''n''), (''export.xls.crdownload'', ''p'')] = None \<and>
   \<not> returned (wait_for_download_and_rename scenario_nothing ''Antioquia'' default_timeout) \<and>
   effects (wait_for_download_and_rename scenario_nothing ''Antioquia'' default_timeout) = [] \<and>
   disk (wait_for_download_and_rename scenario_nothing ''Antioquia'' default_timeout) =
     undisturbed scenario_nothing
       (wait_for_download_and_rename scenario_nothing ''Antioquia'' default_timeout) \<and>
   slept (wait_for_download_and_rename scenario_nothing ''Antioquia'' default_timeout) = 30 \<and>
   log (wait_for_download_and_rename scenario_nothing ''Antioquia'' default_timeout) =
     [Error_no_download ''Antioquia'']"
proof -
  have ps: "\<forall>k. polls scenario_nothing k =
      Listing [(''notas.txt'', ''n''), (''export.xls.crdownload'', ''p'')]"
    by (simp add: scenario_nothing_def)
  have sel: "seleccionar (archivos_antes_de (snapshot scenario_nothing))
               [(''notas.txt'', ''n''), (''export.xls.crdownload'', ''p'')] = None"
    by code_simp
  have h: "\<forall>k d. int k < default_timeout \<and> polls scenario_nothing k = Listing d \<longrightarrow>
      seleccionar (archivos_antes_de (snapshot scenario_nothing)) d = None"
    using sel ps by auto
  have r: "(\<forall>e. snapshot scenario_nothing \<noteq> Unreadable e) \<and>
           (\<forall>k e. int k < default_timeout \<longrightarrow> polls scenario_nothing k \<noteq> Unreadable e)"
    by (simp add: scenario_nothing_def)
  from timeout_fails_without_mutation [OF h, of "''Antioquia''"] r ps sel
  show ?thesis by (simp add: default_timeout_def)
qed

lemma one_in_distinct: "distinct xs \<Longrightarrow> x \<in> set xs \<Longrightarrow> length (filter (\<lambda>n. n = x) xs) = 1"
  by (induction xs) (auto simp: filter_empty_conv)

text \<open>
  C3. Take a run that finds a new file \<open>a\<close> that qualifies, in the directory \<open>d\<close> of
  the poll it stops on, and whose filesystem calls go through: the operating system
  refuses neither the removal, where a file with the target name is there, nor the
  rename; the target name is the path of a file and, where it has a path separator, the
  directory it points into exists; and \<open>a\<close> does not bear the target name already (the
  removal would take \<open>a\<close> itself away and the rename would find no source). The target
  name is the departamento's name followed by the extension of \<open>a\<close>. The run reports
  success. A file of the target name that was already there is removed before the rename,
  and nothing is removed otherwise. At the return the directory holds exactly one entry
  with the target name, carrying the content of \<open>a\<close>, and no entry named \<open>a\<close>.
\<close>

theorem rename_replaces_target:
  assumes ns: "\<forall>e. snapshot w \<noteq> Unreadable e"
    and found: "poll (polls w) (archivos_antes_de (snapshot w)) timeout 0 = Found a d k"
    and rm_ok: "path_exists d (nom @ snd (splitext a)) \<longrightarrow> \<not> remove_denied w"
    and rn_ok: "\<not> rename_denied w"
    and isfile: "\<not> names_a_directory (nom @ snd (splitext a))"
    and reach: "plain (os w) (nom @ snd (splitext a)) \<or> target_dir_exists w"
    and neq: "a \<noteq> nom @ snd (splitext a)"
  shows "returned (wait_for_download_and_rename w nom timeout) \<and>
     undisturbed w (wait_for_download_and_rename w nom timeout) = Listing d \<and>
     seleccionar (archivos_antes_de (snapshot w)) d = Some a \<and>
     qualifies a \<and>
     effects (wait_for_download_and_rename w nom timeout) =
       (if path_exists d (nom @ snd (splitext a)) then [Remove (nom @ snd (splitext a))] else []) @
       [Rename a (nom @ snd (splitext a))] \<and>
     (\<exists>d' c.
        disk (wait_for_download_and_rename w nom timeout) = Listing d' \<and>
        map_of d a = Some c \<and>
        map_of d' (nom @ snd (splitext a)) = Some c \<and>
        length (filter (\<lambda>n. n = nom @ snd (splitext a)) (listdir d')) = 1 \<and>
        map_of d' a = None \<and> a \<notin> set (listdir d'))"
proof -
  from poll_Found [OF found]
  have pk: "polls w k = Listing d" and sel: "seleccionar (archivos_antes_de (snapshot w)) d = Some a"
    by simp_all
  from seleccionar_Some [OF sel] have q: "qualifies a" and "a \<in> set (listdir d)" by simp_all
  then obtain c0 where c0: "map_of d a = Some c0" by (auto simp: in_listdir_iff)
  have w: "wait_for_download_and_rename w nom timeout = renombrar w d nom a k"
    using ns found by (cases "snapshot w") (simp_all add: wait_for_download_and_rename_def)
  from neq c0 have c1: "map_of (unlink (nom @ snd (splitext a)) d) a = Some c0"
    by (simp add: map_of_unlink)
  have gone: "\<not> path_exists (unlink (nom @ snd (splitext a)) d) (nom @ snd (splitext a))"
    by (simp add: path_exists_def map_of_unlink)
  have ret: "returned (renombrar w d nom a k)"
  proof (cases "path_exists d (nom @ snd (splitext a))")
    case True
    with rm_ok rn_ok isfile reach c1 gone show ?thesis
      by (auto simp add: renombrar_def Let_def os_remove_def os_rename_def)
  next
    case False
    with rn_ok isfile reach c0 show ?thesis
      by (auto simp add: renombrar_def Let_def os_rename_def)
  qed
  from renombrar_success [OF ret] obtain d' c where
    dk: "disk (renombrar w d nom a k) = Listing d'" and
    ca: "map_of d a = Some c" and
    ct: "map_of d' (nom @ snd (splitext a)) = Some c" and na: "map_of d' a = None" and
    ef: "effects (renombrar w d nom a k) =
       (if path_exists d (nom @ snd (splitext a)) then [Remove (nom @ snd (splitext a))] else []) @
       [Rename a (nom @ snd (splitext a))]"
    by blast
  have und: "undisturbed w (wait_for_download_and_rename w nom timeout) = Listing d"
    using ns pk by (simp add: w undisturbed_polls renombrar_slept)
  from ct have "nom @ snd (splitext a) \<in> set (listdir d')" by (simp add: in_listdir_iff)
  then have one: "length (filter (\<lambda>n. n = nom @ snd (splitext a)) (listdir d')) = 1"
    by (simp add: one_in_distinct distinct_listdir)
  from na have away: "a \<notin> set (listdir d')" by (simp add: in_listdir_iff)
  have fin: "\<exists>d' c.
        disk (wait_for_download_and_rename w nom timeout) = Listing d' \<and>
        map_of d a = Some c \<and>
        map_of d' (nom @ snd (splitext a)) = Some c \<and>
        length (filter (\<lambda>n. n = nom @ snd (splitext a)) (listdir d')) = 1 \<and>
        map_of d' a = None \<and> a \<notin> set (listdir d')"
    using dk ca ct one na away unfolding w by blast
  from ret ef have "returned (wait_for_download_and_rename w nom timeout)"
    and "effects (wait_for_download_and_rename w nom timeout) =
       (if path_exists d (nom @ snd (splitext a)) then [Remove (nom @ snd (splitext a))] else []) @
       [Rename a (nom @ snd (splitext a))]"
    unfolding w by simp_all
  with und sel q fin show ?thesis by blast
qed

theorem rename_replaces_target_witness:
  "(\<forall>e. snapshot scenario_replace \<noteq> Unreadable e) \<and>
   poll (polls scenario_replace) (archivos_antes_de (snapshot scenario_replace)) 5 0 =
     Found ''export.xls''
       [(''Antioquia.xls'', ''old''), (''notas.txt'', ''n''), (''export.xls'', ''new'')] 2 \<and>
   path_exists [(''Antioquia.xls'', ''old''), (''notas.txt'', ''n''), (''export.xls'', ''new'')]
     (''Antioquia'' @ snd (splitext ''export.xls'')) \<and>
   \<not> remove_denied scenario_replace \<and> \<not> rename_denied scenario_replace \<and>
   \<not> names_a_directory (''Antioquia'' @ snd (splitext ''export.xls'')) \<and>
   plain (os scenario_replace) (''Antioquia'' @ snd (splitext ''export.xls'')) \<and>
   ''export.xls'' \<noteq> ''Antioquia'' @ snd (splitext ''export.xls'') \<and>
   returned (wait_for_download_and_rename scenario_replace ''Antioquia'' 5) \<and>
   effects (wait_for_download_and_rename scenario_replace ''Antioquia'' 5) =
     [Remove ''Antioquia.xls'', Rename ''export.xls'' ''Antioquia.xls''] \<and>
   disk (wait_for_download_and_rename scenario_replace ''Antioquia'' 5) =
     Listing [(''Antioquia.xls'', ''new''), (''notas.txt'', ''n'')] \<and>
   (\<forall>e. snapshot scenario_arrives \<noteq> Unreadable e) \<and>
   poll (polls scenario_arrives) (archivos_antes_de (snapshot scenario_arrives)) 30 0 =
     Found ''export.xls'' [(''export.xls'', ''data'')] 0 \<and>
   \<not> path_exists [(''export.xls'', ''data'')] (''Caldas'' @ snd (splitext ''export.xls'')) \<and>
   \<not> rename_denied scenario_arrives \<and>
   \<not> names_a_directory (''Caldas'' @ snd (splitext ''export.xls'')) \<and>
   plain (os scenario_arrives) (''Caldas'' @ snd (splitext ''export.xls'')) \<and>
   ''export.xls'' \<noteq> ''Caldas'' @ snd (splitext ''export.xls'') \<and>
   returned (wait_for_download_and_rename scenario_arrives ''Caldas'' 30) \<and>
   effects (wait_for_download_and_rename scenario_arrives ''Caldas'' 30) =
     [Rename ''export.xls'' ''Caldas.xls''] \<and>
   disk (wait_for_download_and_rename scenario_arrives ''Caldas'' 30) =
     Listing [(''Caldas.xls'', ''data'')]"
proof -
  let ?D = "[(''Antioquia.xls'', ''old''), (''notas.txt'', ''n''), (''export.xls'', ''new'')]"
  let ?T = "''Antioquia'' @ snd (splitext ''export.xls'')"
  let ?E = "[(''export.xls'', ''data'')]"
  let ?U = "''Caldas'' @ snd (splitext ''export.xls'')"
  have ns1: "\<forall>e. snapshot scenario_replace \<noteq> Unreadable e"
    by (simp add: scenario_replace_def)
  have p1: "poll (polls scenario_replace) (archivos_antes_de (snapshot scenario_replace)) 5 0 =
      Found ''export.xls'' ?D 2"
    by code_simp
  have e1: "path_exists ?D ?T" by code_simp
  have f1: "\<not> remove_denied scenario_replace" "\<not> rename_denied scenario_replace"
    by (simp_all add: scenario_replace_def)
  have n1: "\<not> names_a_directory ?T" by code_simp
  have l1: "plain (os scenario_replace) ?T" by code_simp
  have d1: "''export.xls'' \<noteq> ?T" by code_simp
  have t1: "?T = ''Antioquia.xls''" by code_simp
  note r1 = rename_replaces_target [OF ns1 p1 _ f1(2) n1 disjI1 [OF l1] d1]
  from r1 f1(1) have ret1: "returned (wait_for_download_and_rename scenario_replace ''Antioquia'' 5)"
    by blast
  from r1 f1(1) e1 have "effects (wait_for_download_and_rename scenario_replace ''Antioquia'' 5) =
      [Remove ?T, Rename ''export.xls'' ?T]"
    by simp
  then have ef1: "effects (wait_for_download_and_rename scenario_replace ''Antioquia'' 5) =
      [Remove ''Antioquia.xls'', Rename ''export.xls'' ''Antioquia.xls'']"
    unfolding t1 .
  have dk1: "disk (wait_for_download_and_rename scenario_replace ''Antioquia'' 5) =
      Listing [(''Antioquia.xls'', ''new''), (''notas.txt'', ''n'')]"
    by code_simp
  have ns2: "\<forall>e. snapshot scenario_arrives \<noteq> Unreadable e"
    by (simp add: scenario_arrives_def)
  have p2: "poll (polls scenario_arrives) (archivos_antes_de (snapshot scenario_arrives)) 30 0 =
      Found ''export.xls'' ?E 0"
    by code_simp
  have e2: "\<not> path_exists ?E ?U" by code_simp
  have f2: "\<not> rename_denied scenario_arrives"
    by (simp add: scenario_arrives_def)
  have n2: "\<not> names_a_directory ?U" by code_simp
  have l2: "plain (os scenario_arrives) ?U" by code_simp
  have d2: "''export.xls'' \<noteq> ?U" by code_simp
  have t2: "?U = ''Caldas.xls''" by code_simp
  note r2 = rename_replaces_target [OF ns2 p2 _ f2 n2 disjI1 [OF l2] d2]
  from r2 e2 have ret2: "returned (wait_for_download_and_rename scenario_arrives ''Caldas'' 30)"
    by blast
  from r2 e2 have "effects (wait_for_download_and_rename scenario_arrives ''Caldas'' 30) =
      [Rename ''export.xls'' ?U]"
    by simp
  then have ef2: "effects (wait_for_download_and_rename scenario_arrives ''Caldas'' 30) =
      [Rename ''export.xls'' ''Caldas.xls'']"
    unfolding t2 .
  have dk2: "disk (wait_for_download_and_rename scenario_arrives ''Caldas'' 30) =
      Listing [(''Caldas.xls'', ''data'')]"
    by code_simp
  from ns1 p1 e1 f1 n1 l1 d1 ret1 ef1 dk1 ns2 p2 e2 f2 n2 l2 d2 ret2 ef2 dk2
  show ?thesis by blast
qed

text \<open>
  C4. Frame of a run. Either the run changed nothing, or it stopped on a new file \<open>a\<close>
  that qualifies and changed the directory by at most one removal, of an existing file
  with the target name, followed by one rename of \<open>a\<close> to the target name, the rename
  being there exactly when the run returns success. Every file with another name is at
  the return what it was before.
\<close>

theorem only_source_and_target_touched:
  "(effects (wait_for_download_and_rename w nom timeout) = [] \<and>
    disk (wait_for_download_and_rename w nom timeout) =
      undisturbed w (wait_for_download_and_rename w nom timeout)) \<or>
   (\<exists>a d d' rm.
      undisturbed w (wait_for_download_and_rename w nom timeout) = Listing d \<and>
      seleccionar (archivos_antes_de (snapshot w)) d = Some a \<and>
      disk (wait_for_download_and_rename w nom timeout) = Listing d' \<and>
      (rm \<longrightarrow> path_exists d (nom @ snd (splitext a))) \<and>
      effects (wait_for_download_and_rename w nom timeout) =
        (if rm then [Remove (nom @ snd (splitext a))] else []) @
        (if returned (wait_for_download_and_rename w nom timeout)
         then [Rename a (nom @ snd (splitext a))] else []) \<and>
      (\<forall>n. n \<noteq> a \<and> n \<noteq> nom @ snd (splitext a) \<longrightarrow> map_of d' n = map_of d n))"
proof (cases rule: wait_cases [of w nom timeout])
  case (snap e)
  then show ?thesis by (simp add: undisturbed_def)
next
  case (raised e k)
  then show ?thesis by (simp add: undisturbed_polls)
next
  case (timeout k)
  then show ?thesis by (simp add: undisturbed_polls)
next
  case (found a d k)
  from poll_Found [OF found(2)]
  have pk: "polls w k = Listing d" and sel: "seleccionar (archivos_antes_de (snapshot w)) d = Some a"
    by simp_all
  have und: "undisturbed w (wait_for_download_and_rename w nom timeout) = Listing d"
    using found(1) found(3) pk by (simp add: undisturbed_polls renombrar_slept)
  from renombrar_frame [of w d nom a k] obtain d' where
    dk: "disk (renombrar w d nom a k) = Listing d'" and
    fr: "\<forall>n. n \<noteq> a \<and> n \<noteq> nom @ snd (splitext a) \<longrightarrow> map_of d' n = map_of d n"
    by blast
  from renombrar_effects [of d nom a w k] obtain rm where
    rm: "rm \<longrightarrow> path_exists d (nom @ snd (splitext a))" and
    ef: "effects (renombrar w d nom a k) =
       (if rm then [Remove (nom @ snd (splitext a))] else []) @
       (if returned (renombrar w d nom a k) then [Rename a (nom @ snd (splitext a))] else [])"
    by blast
  have "\<exists>a d d' rm.
      undisturbed w (wait_for_download_and_rename w nom timeout) = Listing d \<and>
      seleccionar (archivos_antes_de (snapshot w)) d = Some a \<and>
      disk (wait_for_download_and_rename w nom timeout) = Listing d' \<and>
      (rm \<longrightarrow> path_exists d (nom @ snd (splitext a))) \<and>
      effects (wait_for_download_and_rename w nom timeout) =
        (if rm then [Remove (nom @ snd (splitext a))] else []) @
        (if returned (wait_for_download_and_rename w nom timeout)
         then [Rename a (nom @ snd (splitext a))] else []) \<and>
      (\<forall>n. n \<noteq> a \<and> n \<noteq> nom @ snd (splitext a) \<longrightarrow> map_of d' n = map_of d n)"
    using und sel dk rm ef fr unfolding found(3) by blast
  then show ?thesis by (rule disjI2)
qed


theorem only_source_and_target_touched_witness:
  "effects (wait_for_download_and_rename scenario_replace ''Antioquia'' 5) =
     [Remove ''Antioquia.xls'', Rename ''export.xls'' ''Antioquia.xls''] \<and>
   lookup (undisturbed scenario_replace
     (wait_for_download_and_rename scenario_replace ''Antioquia'' 5)) ''notas.txt'' = Some ''n'' \<and>
   lookup (disk (wait_for_download_and_rename scenario_replace ''Antioquia'' 5)) ''notas.txt'' =
     Some ''n''"
proof -
  let ?r = "wait_for_download_and_rename scenario_replace ''Antioquia'' 5"
  let ?D = "[(''Antioquia.xls'', ''old''), (''notas.txt'', ''n''), (''export.xls'', ''new'')]"
  have ef: "effects ?r = [Remove ''Antioquia.xls'', Rename ''export.xls'' ''Antioquia.xls'']"
    by code_simp
  have un: "undisturbed scenario_replace ?r = Listing ?D"
    by code_simp
  have sel: "seleccionar (archivos_antes_de (snapshot scenario_replace)) ?D = Some ''export.xls''"
    by code_simp
  have tg: "''Antioquia'' @ snd (splitext ''export.xls'') = ''Antioquia.xls''"
    by code_simp
  from ef have ne: "effects ?r \<noteq> []" by simp
  from only_source_and_target_touched [of scenario_replace "''Antioquia''" 5] ne
  obtain a d d' where
    d: "undisturbed scenario_replace ?r = Listing d" and
    a: "seleccionar (archivos_antes_de (snapshot scenario_replace)) d = Some a" and
    d': "disk ?r = Listing d'" and
    fr: "\<forall>n. n \<noteq> a \<and> n \<noteq> ''Antioquia'' @ snd (splitext a) \<longrightarrow> map_of d' n = map_of d n"
    by blast
  from d un have dD: "d = ?D" by simp
  with a sel have aE: "a = ''export.xls''" by simp
  from fr aE tg dD have "map_of d' ''notas.txt'' = map_of ?D ''notas.txt''" by simp
  then have "lookup (disk ?r) ''notas.txt'' = Some ''n''" by (simp add: d' lookup_def)
  moreover have "lookup (undisturbed scenario_replace ?r) ''notas.txt'' = Some ''n''"
    by (simp add: un lookup_def)
  ultimately show ?thesis using ef by simp
qed

text \<open>
  C1, as the code has it. In one poll a new file is selected exactly when it qualifies
  (its name in lower case ends with \<^verbatim>\<open>.xls\<close> or \<^verbatim>\<open>.xlsx\<close>, the name does not start with
  \<^verbatim>\<open>~\<close> and does not end with \<^verbatim>\<open>.crdownload\<close>) and it is the first new file in the
  order of iteration that does; when it is the only new file, exactly when it qualifies.
  A name that starts with \<^verbatim>\<open>~\<close> or ends with \<^verbatim>\<open>.crdownload\<close> is never selected. The loop
  stops at the first poll that selects a file, after as many sleeps as polls went before
  it, not after the timeout.
\<close>

theorem first_qualifying_new_file_selected:
  "(seleccionar antes d = Some a \<longleftrightarrow>
      a \<in> set (archivos_nuevos antes d) \<and>
      (endswith (lower a) ''.xls'' \<or> endswith (lower a) ''.xlsx'') \<and>
      \<not> startswith a ''~'' \<and> \<not> endswith a ''.crdownload'' \<and>
      a = hd (filter qualifies (archivos_nuevos antes d))) \<and>
   (archivos_nuevos antes d = [a] \<longrightarrow>
      (seleccionar antes d = Some a \<longleftrightarrow>
         (endswith (lower a) ''.xls'' \<or> endswith (lower a) ''.xlsx'') \<and>
         \<not> startswith a ''~'' \<and> \<not> endswith a ''.crdownload'')) \<and>
   (startswith a ''~'' \<or> endswith a ''.crdownload'' \<longrightarrow> seleccionar antes d \<noteq> Some a) \<and>
   ((\<forall>e. snapshot w \<noteq> Unreadable e) \<and> int k < timeout \<and>
    (\<forall>j<k. quiet (archivos_antes_de (snapshot w)) (polls w j)) \<and>
    polls w k = Listing d \<and> seleccionar (archivos_antes_de (snapshot w)) d = Some a \<longrightarrow>
      poll (polls w) (archivos_antes_de (snapshot w)) timeout 0 = Found a d k \<and>
      slept (wait_for_download_and_rename w nom timeout) = k)"
proof -
  have sel: "seleccionar antes d = Some a \<longleftrightarrow>
      filter qualifies (archivos_nuevos antes d) \<noteq> [] \<and>
      a = hd (filter qualifies (archivos_nuevos antes d))"
    by (simp add: seleccionar_def find_Some_hd)
  have first: "seleccionar antes d = Some a \<longleftrightarrow>
      a \<in> set (archivos_nuevos antes d) \<and>
      (endswith (lower a) ''.xls'' \<or> endswith (lower a) ''.xlsx'') \<and>
      \<not> startswith a ''~'' \<and> \<not> endswith a ''.crdownload'' \<and>
      a = hd (filter qualifies (archivos_nuevos antes d))"
  proof
    assume s: "seleccionar antes d = Some a"
    then have "qualifies a" "a \<in> set (archivos_nuevos antes d)"
      by (auto simp: seleccionar_def dest: find_Some_in)
    with s sel show "a \<in> set (archivos_nuevos antes d) \<and>
      (endswith (lower a) ''.xls'' \<or> endswith (lower a) ''.xlsx'') \<and>
      \<not> startswith a ''~'' \<and> \<not> endswith a ''.crdownload'' \<and>
      a = hd (filter qualifies (archivos_nuevos antes d))"
      by (simp add: qualifies_def)
  next
    assume r: "a \<in> set (archivos_nuevos antes d) \<and>
      (endswith (lower a) ''.xls'' \<or> endswith (lower a) ''.xlsx'') \<and>
      \<not> startswith a ''~'' \<and> \<not> endswith a ''.crdownload'' \<and>
      a = hd (filter qualifies (archivos_nuevos antes d))"
    from r have mem: "a \<in> set (archivos_nuevos antes d)" by (rule conjunct1)
    from r have hd: "a = hd (filter qualifies (archivos_nuevos antes d))" by blast
    from r have "qualifies a" unfolding qualifies_def by blast
    with mem have "a \<in> set (filter qualifies (archivos_nuevos antes d))" by simp
    then have ne: "filter qualifies (archivos_nuevos antes d) \<noteq> []"
      by (metis empty_iff empty_set)
    from ne hd show "seleccionar antes d = Some a"
      by (rule sel [THEN iffD2, OF conjI])
  qed
  have only: "archivos_nuevos antes d = [a] \<longrightarrow>
      (seleccionar antes d = Some a \<longleftrightarrow>
         (endswith (lower a) ''.xls'' \<or> endswith (lower a) ''.xlsx'') \<and>
         \<not> startswith a ''~'' \<and> \<not> endswith a ''.crdownload'')"
    by (auto simp: seleccionar_def qualifies_def)
  have never: "startswith a ''~'' \<or> endswith a ''.crdownload'' \<longrightarrow> seleccionar antes d \<noteq> Some a"
    using first by blast
  have stops: "(\<forall>e. snapshot w \<noteq> Unreadable e) \<and> int k < timeout \<and>
    (\<forall>j<k. quiet (archivos_antes_de (snapshot w)) (polls w j)) \<and>
    polls w k = Listing d \<and> seleccionar (archivos_antes_de (snapshot w)) d = Some a \<longrightarrow>
      poll (polls w) (archivos_antes_de (snapshot w)) timeout 0 = Found a d k \<and>
      slept (wait_for_download_and_rename w nom timeout) = k"
  proof (intro impI, elim conjE)
    assume ns: "\<forall>e. snapshot w \<noteq> Unreadable e" and kt: "int k < timeout"
      and q: "\<forall>j<k. quiet (archivos_antes_de (snapshot w)) (polls w j)"
      and pk: "polls w k = Listing d"
      and s: "seleccionar (archivos_antes_de (snapshot w)) d = Some a"
    from q have q': "\<forall>j. 0 \<le> j \<and> j < k \<longrightarrow> quiet (archivos_antes_de (snapshot w)) (polls w j)"
      by simp
    have f: "poll (polls w) (archivos_antes_de (snapshot w)) timeout 0 = Found a d k"
      by (rule poll_first [OF _ kt q' pk s]) simp
    have "slept (wait_for_download_and_rename w nom timeout) = k"
    proof (cases rule: wait_cases [of w nom timeout])
      case (snap e)
      with ns show ?thesis by simp
    next
      case (raised e j)
      with f show ?thesis by simp
    next
      case (timeout j)
      with f show ?thesis by simp
    next
      case (found a' d' j)
      with f show ?thesis by (simp add: renombrar_slept)
    qed
    with f show "poll (polls w) (archivos_antes_de (snapshot w)) timeout 0 = Found a d k \<and>
      slept (wait_for_download_and_rename w nom timeout) = k" by simp
  qed
  from first only never stops show ?thesis by blast
qed

theorem first_qualifying_new_file_selected_witness:
  "(\<forall>e. snapshot scenario_replace \<noteq> Unreadable e) \<and> int 2 < 30 \<and>
   quiet (archivos_antes_de (snapshot scenario_replace)) (polls scenario_replace 0) \<and>
   quiet (archivos_antes_de (snapshot scenario_replace)) (polls scenario_replace 1) \<and>
   polls scenario_replace 2 =
     Listing [(''Antioquia.xls'', ''old''), (''notas.txt'', ''n''), (''export.xls'', ''new'')] \<and>
   seleccionar (archivos_antes_de (snapshot scenario_replace))
     [(''Antioquia.xls'', ''old''), (''notas.txt'', ''n''), (''export.xls'', ''new'')] =
     Some ''export.xls'' \<and>
   slept (wait_for_download_and_rename scenario_replace ''Antioquia'' 30) = 2 \<and>
   archivos_nuevos [] [(''~$export.xls'', ''l'')] = [''~$export.xls''] \<and>
   startswith ''~$export.xls'' ''~'' \<and>
   seleccionar [] [(''~$export.xls'', ''l'')] \<noteq> Some ''~$export.xls''"
proof -
  let ?D = "[(''Antioquia.xls'', ''old''), (''notas.txt'', ''n''), (''export.xls'', ''new'')]"
  have ns: "\<forall>e. snapshot scenario_replace \<noteq> Unreadable e"
    by (simp add: scenario_replace_def)
  have q0: "quiet (archivos_antes_de (snapshot scenario_replace)) (polls scenario_replace 0)"
    by code_simp
  have q1: "quiet (archivos_antes_de (snapshot scenario_replace)) (polls scenario_replace 1)"
    by code_simp
  have q: "\<forall>j<2. quiet (archivos_antes_de (snapshot scenario_replace)) (polls scenario_replace j)"
  proof (intro allI impI)
    fix j :: nat
    assume "j < 2"
    then have "j = 0 \<or> j = 1" by arith
    with q0 q1 show "quiet (archivos_antes_de (snapshot scenario_replace)) (polls scenario_replace j)"
      by auto
  qed
  have pk: "polls scenario_replace 2 = Listing ?D"
    by (simp add: scenario_replace_def)
  have s: "seleccionar (archivos_antes_de (snapshot scenario_replace)) ?D = Some ''export.xls''"
    by code_simp
  have kt: "int 2 < 30" by simp
  have nw: "archivos_nuevos [] [(''~$export.xls'', ''l'')] = [''~$export.xls'']"
    by code_simp
  have tl: "startswith ''~$export.xls'' ''~''"
    by code_simp
  from first_qualifying_new_file_selected
    [of "archivos_antes_de (snapshot scenario_replace)" ?D "''export.xls''" scenario_replace
        2 30 "''Antioquia''"] ns kt q pk s
  have sl: "slept (wait_for_download_and_rename scenario_replace ''Antioquia'' 30) = 2"
    by blast
  from first_qualifying_new_file_selected
    [of "[]" "[(''~$export.xls'', ''l'')]" "''~$export.xls''" scenario_replace 2 30 "''Antioquia''"] tl
  have nv: "seleccionar [] [(''~$export.xls'', ''l'')] \<noteq> Some ''~$export.xls''"
    by blast
  from ns kt q0 q1 pk s sl nw tl nv show ?thesis by simp
qed

text \<open>
  C1 as it is worded fails where two new files qualify in the same poll: \<^verbatim>\<open>b.xls\<close> is
  new and passes the test on its name, and the poll selects \<^verbatim>\<open>a.xls\<close>, which alone is
  renamed.
\<close>

theorem second_qualifying_file_not_selected:
  "''b.xls'' \<in> set (archivos_nuevos (archivos_antes_de (snapshot scenario_two_new))
                     [(''a.xls'', ''1''), (''b.xls'', ''2'')]) \<and>
   (endswith (lower ''b.xls'') ''.xls'' \<or> endswith (lower ''b.xls'') ''.xlsx'') \<and>
   \<not> startswith ''b.xls'' ''~'' \<and> \<not> endswith ''b.xls'' ''.crdownload'' \<and>
   polls scenario_two_new 0 = Listing [(''a.xls'', ''1''), (''b.xls'', ''2'')] \<and>
   seleccionar (archivos_antes_de (snapshot scenario_two_new))
     [(''a.xls'', ''1''), (''b.xls'', ''2'')] = Some ''a.xls'' \<and>
   wait_for_download_and_rename scenario_two_new ''Antioquia'' 30 =
     \<lparr>returned = True, effects = [Rename ''a.xls'' ''Antioquia.xls''],
      disk = Listing [(''Antioquia.xls'', ''1''), (''b.xls'', ''2'')],
      log = [Info_renamed ''a.xls'' ''Antioquia.xls''], slept = 0\<rparr>"
  by code_simp





text \<open>
  C10. There is a run that finds a new file that qualifies while a file with the target
  name is there since before the wait, removes that file, has its rename refused by the
  operating system and returns failure: the earlier artifact is gone from the directory
  and the new file is still there under its own name.
\<close>

theorem rename_error_after_removal_is_not_atomic:
  "\<exists>w nom timeout a d k.
     (\<forall>e. snapshot w \<noteq> Unreadable e) \<and>
     poll (polls w) (archivos_antes_de (snapshot w)) timeout 0 = Found a d k \<and>
     nom @ snd (splitext a) \<in> set (archivos_antes_de (snapshot w)) \<and>
     path_exists d (nom @ snd (splitext a)) \<and>
     \<not> returned (wait_for_download_and_rename w nom timeout) \<and>
     effects (wait_for_download_and_rename w nom timeout) = [Remove (nom @ snd (splitext a))] \<and>
     log (wait_for_download_and_rename w nom timeout) =
       [Info_existing_removed (nom @ snd (splitext a)), Error_renaming PermissionError] \<and>
     lookup (undisturbed w (wait_for_download_and_rename w nom timeout))
       (nom @ snd (splitext a)) \<noteq> None \<and>
     lookup (disk (wait_for_download_and_rename w nom timeout)) (nom @ snd (splitext a)) = None \<and>
     lookup (disk (wait_for_download_and_rename w nom timeout)) a =
       lookup (undisturbed w (wait_for_download_and_rename w nom timeout)) a \<and>
     lookup (disk (wait_for_download_and_rename w nom timeout)) a \<noteq> None"
proof -
  let ?D = "[(''Antioquia.xls'', ''old''), (''export.xls'', ''new'')]"
  have ns: "\<forall>e. snapshot scenario_locked \<noteq> Unreadable e"
    by (simp add: scenario_locked_def)
  have run: "poll (polls scenario_locked) (archivos_antes_de (snapshot scenario_locked)) 30 0 =
       Found ''export.xls'' ?D 1 \<and>
     ''Antioquia'' @ snd (splitext ''export.xls'') \<in>
       set (archivos_antes_de (snapshot scenario_locked)) \<and>
     path_exists ?D (''Antioquia'' @ snd (splitext ''export.xls'')) \<and>
     \<not> returned (wait_for_download_and_rename scenario_locked ''Antioquia'' 30) \<and>
     effects (wait_for_download_and_rename scenario_locked ''Antioquia'' 30) =
       [Remove (''Antioquia'' @ snd (splitext ''export.xls''))] \<and>
     log (wait_for_download_and_rename scenario_locked ''Antioquia'' 30) =
       [Info_existing_removed (''Antioquia'' @ snd (splitext ''export.xls'')),
        Error_renaming PermissionError] \<and>
     lookup (undisturbed scenario_locked
         (wait_for_download_and_rename scenario_locked ''Antioquia'' 30))
       (''Antioquia'' @ snd (splitext ''export.xls'')) \<noteq> None \<and>
     lookup (disk (wait_for_download_and_rename scenario_locked ''Antioquia'' 30))
       (''Antioquia'' @ snd (splitext ''export.xls'')) = None \<and>
     lookup (disk (wait_for_download_and_rename scenario_locked ''Antioquia'' 30)) ''export.xls'' =
       lookup (undisturbed scenario_locked
         (wait_for_download_and_rename scenario_locked ''Antioquia'' 30)) ''export.xls'' \<and>
     lookup (disk (wait_for_download_and_rename scenario_locked ''Antioquia'' 30)) ''export.xls''
       \<noteq> None"
    by code_simp
  show ?thesis
    by (intro exI [of _ scenario_locked] exI [of _ "''Antioquia''"] exI [of _ 30]
          exI [of _ "''export.xls''"] exI [of _ ?D] exI [of _ 1])
       (rule conjI [OF ns run])
qed

section \<open>Facts about the batches\<close>

lemma attempts_append: "attempts (xs @ ys) = attempts xs @ attempts ys"
  by (induction xs rule: attempts.induct) simp_all

lemma quits_append: "quits (xs @ ys) = quits xs @ quits ys"
  by (induction xs rule: quits.induct) simp_all

lemma steps_append: "steps (xs @ ys) = steps xs @ steps ys"
  by (induction xs rule: steps.induct) simp_all

lemma summaries_append: "summaries (xs @ ys) = summaries xs @ summaries ys"
  by (induction xs rule: summaries.induct) simp_all

lemma map_fst_attempts_of: "map fst (attempts_of rw i depts) = depts"
  by (induction depts arbitrary: i) simp_all

lemma length_attempts_of: "length (attempts_of rw i depts) = length depts"
  by (induction depts arbitrary: i) simp_all

lemma nth_attempts_of:
  "j < length depts \<Longrightarrow>
     attempts_of rw i depts ! j = (depts ! j, download_departamento_data (rw (i + j)) (depts ! j))"
proof (induction depts arbitrary: i j)
  case Nil
  then show ?case by simp
next
  case (Cons dept rest)
  then show ?case by (cases j) simp_all
qed

lemma fst_loop_all_Cons:
  "fst (loop_all rw n i (dept # rest) s f) =
     Log_progress i n (nombre dept) #
     Attempt dept (download_departamento_data (rw (i - 1)) dept) #
     (if i < n then [Log_waiting, Sleep 3] else []) @
     fst (loop_all rw n (i + 1) rest
            (if succeeded (download_departamento_data (rw (i - 1)) dept) then s + 1 else s)
            (if succeeded (download_departamento_data (rw (i - 1)) dept) then f else f + 1))"
  by (simp add: Let_def split: prod.splits)

lemma snd_loop_all_Cons:
  "snd (loop_all rw n i (dept # rest) s f) =
     snd (loop_all rw n (i + 1) rest
            (if succeeded (download_departamento_data (rw (i - 1)) dept) then s + 1 else s)
            (if succeeded (download_departamento_data (rw (i - 1)) dept) then f else f + 1))"
  by (simp add: Let_def split: prod.splits)

lemma loop_all_attempts:
  "0 < i \<Longrightarrow> attempts (fst (loop_all rw n i depts s f)) = attempts_of rw (i - 1) depts"
proof (induction depts arbitrary: i s f)
  case Nil
  then show ?case by simp
next
  case (Cons dept rest)
  from Cons.prems have i: "i + 1 - 1 = Suc (i - 1)" by simp
  have "attempts (fst (loop_all rw n i (dept # rest) s f)) =
      (dept, download_departamento_data (rw (i - 1)) dept) #
      attempts (fst (loop_all rw n (i + 1) rest
            (if succeeded (download_departamento_data (rw (i - 1)) dept) then s + 1 else s)
            (if succeeded (download_departamento_data (rw (i - 1)) dept) then f else f + 1)))"
    by (simp only: fst_loop_all_Cons) (simp add: attempts_append)
  also have "\<dots> = (dept, download_departamento_data (rw (i - 1)) dept) #
      attempts_of rw (Suc (i - 1)) rest"
    using Cons.IH [of "i + 1"] i by simp
  finally show ?case by simp
qed

lemma loop_all_counters:
  "snd (loop_all rw n i depts s f) =
     (s + length (filter (\<lambda>p. succeeded (snd p)) (attempts (fst (loop_all rw n i depts s f)))),
      f + length (filter (\<lambda>p. \<not> succeeded (snd p)) (attempts (fst (loop_all rw n i depts s f)))))"
proof (induction depts arbitrary: i s f)
  case Nil
  then show ?case by simp
next
  case (Cons dept rest)
  show ?case
  proof (cases "succeeded (download_departamento_data (rw (i - 1)) dept)")
    case True
    with Cons.IH [of "i + 1" "s + 1" f] show ?thesis
      by (simp only: fst_loop_all_Cons snd_loop_all_Cons) (simp add: attempts_append)
  next
    case False
    with Cons.IH [of "i + 1" s "f + 1"] show ?thesis
      by (simp only: fst_loop_all_Cons snd_loop_all_Cons) (simp add: attempts_append)
  qed
qed

lemma loop_all_steps:
  "i + length depts = Suc n \<Longrightarrow> steps (fst (loop_all rw n i depts s f)) = paced 3 (length depts)"
proof (induction depts arbitrary: i s f)
  case Nil
  then show ?case by simp
next
  case (Cons dept rest)
  show ?case
  proof (cases rest)
    case Nil
    with Cons.prems have "\<not> i < n" by simp
    with Nil show ?thesis by (simp only: fst_loop_all_Cons) simp
  next
    case (Cons dept' rest')
    with Cons.prems have lt: "i < n" and nx: "(i + 1) + length rest = Suc n" by simp_all
    have "steps (fst (loop_all rw n i (dept # rest) s f)) =
        Try # Pause 3 # steps (fst (loop_all rw n (i + 1) rest
            (if succeeded (download_departamento_data (rw (i - 1)) dept) then s + 1 else s)
            (if succeeded (download_departamento_data (rw (i - 1)) dept) then f else f + 1)))"
      using lt by (simp only: fst_loop_all_Cons) (simp add: steps_append)
    also have "\<dots> = Try # Pause 3 # paced 3 (length rest)"
      using Cons.IH [OF nx] by simp
    finally show ?thesis using Cons by simp
  qed
qed

lemma loop_all_quits: "quits (fst (loop_all rw n i depts s f)) = []"
proof (induction depts arbitrary: i s f)
  case Nil
  then show ?case by simp
next
  case (Cons dept rest)
  then show ?case by (simp only: fst_loop_all_Cons) (simp add: quits_append)
qed

lemma loop_all_summaries: "summaries (fst (loop_all rw n i depts s f)) = []"
proof (induction depts arbitrary: i s f)
  case Nil
  then show ?case by simp
next
  case (Cons dept rest)
  then show ?case by (simp only: fst_loop_all_Cons) (simp add: summaries_append)
qed

lemma loop_specific_attempts: "attempts (loop_specific rw i depts) = attempts_of rw i depts"
  by (induction depts arbitrary: i) simp_all

lemma loop_specific_steps:
  "steps (loop_specific rw i depts) = concat (replicate (length depts) [Try, Pause 3])"
  by (induction depts arbitrary: i) simp_all

lemma loop_specific_quits: "quits (loop_specific rw i depts) = []"
  by (induction depts arbitrary: i) simp_all

lemma loop_specific_summaries: "summaries (loop_specific rw i depts) = []"
  by (induction depts arbitrary: i) simp_all

lemma quits_finally_quit: "quits (finally_quit drv) = (case drv of None \<Rightarrow> [] | Some s \<Rightarrow> [s])"
  by (simp add: finally_quit_def split: option.splits)

lemma trace_all_ok:
  assumes "setup_driver b = Setup_ok s" "navigate_to_servicios_page b"
    "get_departamentos_list b \<noteq> []"
  shows "trace (download_all_departamentos b drv) =
     [Navigate True, Get_catalog (length (get_departamentos_list b)),
      Log_start (length (get_departamentos_list b))] @
     fst (loop_all (regions b) (length (get_departamentos_list b)) 1
            (get_departamentos_list b) 0 0) @
     [Log_summary
        (fst (snd (loop_all (regions b) (length (get_departamentos_list b)) 1
            (get_departamentos_list b) 0 0)))
        (snd (snd (loop_all (regions b) (length (get_departamentos_list b)) 1
            (get_departamentos_list b) 0 0))),
      Quit s]"
  using assms
  by (simp add: download_all_departamentos_def Let_def finally_quit_def split_beta)

lemma trace_all_aborted:
  assumes "setup_driver b = Setup_ok s"
    "\<not> navigate_to_servicios_page b \<or> get_departamentos_list b = []"
  shows "trace (download_all_departamentos b drv) =
     (if \<not> navigate_to_servicios_page b then [Navigate False, Log_error_navigation, Quit s]
      else [Navigate True, Get_catalog 0, Log_error_catalog, Quit s])"
  using assms
  by (auto simp add: download_all_departamentos_def Let_def finally_quit_def)

lemma trace_specific_ok:
  assumes "setup_driver b = Setup_ok s" "navigate_to_servicios_page b"
    "departamentos_a_descargar lw (get_departamentos_list b) noms \<noteq> []"
  shows "trace (download_specific_departamentos lw b drv noms) =
     [Navigate True, Get_catalog (length (get_departamentos_list b)),
      Log_start (length (departamentos_a_descargar lw (get_departamentos_list b) noms))] @
     loop_specific (regions b) 0 (departamentos_a_descargar lw (get_departamentos_list b) noms) @
     [Quit s]"
proof -
  from assms(3) have "get_departamentos_list b \<noteq> []"
    by (auto simp: departamentos_a_descargar_def)
  with assms show ?thesis
    by (simp add: download_specific_departamentos_def Let_def finally_quit_def)
qed

lemma trace_specific_aborted:
  assumes "setup_driver b = Setup_ok s"
    "\<not> navigate_to_servicios_page b \<or>
     departamentos_a_descargar lw (get_departamentos_list b) noms = []"
  shows "trace (download_specific_departamentos lw b drv noms) =
     (if \<not> navigate_to_servicios_page b then [Navigate False, Log_error_navigation, Quit s]
      else if get_departamentos_list b = []
      then [Navigate True, Get_catalog 0, Log_error_catalog, Quit s]
      else [Navigate True, Get_catalog (length (get_departamentos_list b)),
            Log_error_no_match, Quit s])"
  using assms
  by (auto simp add: download_specific_departamentos_def Let_def finally_quit_def
        departamentos_a_descargar_def)

lemma trace_setup_raised:
  assumes "setup_driver b = Setup_raises \<or> setup_driver b = Setup_raises_with s"
  shows "trace (download_all_departamentos b drv) =
           Log_error_exception #
           finally_quit (if setup_driver b = Setup_raises then drv else Some s)"
    and "trace (download_specific_departamentos lw b drv noms) =
           Log_error_exception #
           finally_quit (if setup_driver b = Setup_raises then drv else Some s)"
  using assms
  by (auto simp add: download_all_departamentos_def download_specific_departamentos_def)

section \<open>Properties of the batches\<close>

text \<open>
  C8. Take a filtered batch in which no departamento of the catalog and no name asked
  for are equal once both are lowercased, whatever function \<^verbatim>\<open>str.lower\<close> is. The filter
  of lines 407-410 keeps nothing; the batch makes no attempt, takes no pause and logs no
  tally; and when the browser started, the page was reached and the catalog is not empty,
  it does nothing after reading the catalog but log the error and release the session.
\<close>

theorem no_match_aborts_before_any_attempt:
  assumes "\<forall>dept \<in> set (get_departamentos_list b). \<forall>n \<in> set noms.
             str_lower (nombre dept) \<noteq> str_lower n"
  shows "departamentos_a_descargar str_lower (get_departamentos_list b) noms = [] \<and>
         attempts (trace (download_specific_departamentos str_lower b drv noms)) = [] \<and>
         steps (trace (download_specific_departamentos str_lower b drv noms)) = [] \<and>
         summaries (trace (download_specific_departamentos str_lower b drv noms)) = [] \<and>
         (\<forall>s. setup_driver b = Setup_ok s \<and> navigate_to_servicios_page b \<and>
              get_departamentos_list b \<noteq> [] \<longrightarrow>
            trace (download_specific_departamentos str_lower b drv noms) =
              [Navigate True, Get_catalog (length (get_departamentos_list b)),
               Log_error_no_match, Quit s])"
proof -
  from assms have none: "departamentos_a_descargar str_lower (get_departamentos_list b) noms = []"
    by (auto simp: departamentos_a_descargar_def filter_empty_conv)
  have rest: "attempts (trace (download_specific_departamentos str_lower b drv noms)) = [] \<and>
         steps (trace (download_specific_departamentos str_lower b drv noms)) = [] \<and>
         summaries (trace (download_specific_departamentos str_lower b drv noms)) = [] \<and>
         (\<forall>s. setup_driver b = Setup_ok s \<and> navigate_to_servicios_page b \<and>
              get_departamentos_list b \<noteq> [] \<longrightarrow>
            trace (download_specific_departamentos str_lower b drv noms) =
              [Navigate True, Get_catalog (length (get_departamentos_list b)),
               Log_error_no_match, Quit s])"
  proof (cases "setup_driver b")
    case Setup_raises
    then show ?thesis
      by (cases drv)
        (simp_all add: download_specific_departamentos_def finally_quit_def)
  next
    case (Setup_raises_with s)
    then show ?thesis
      by (simp add: download_specific_departamentos_def finally_quit_def)
  next
    case (Setup_ok s)
    from trace_specific_aborted
      [OF Setup_ok, where lw = str_lower and noms = noms and drv = drv] none Setup_ok
    show ?thesis by simp
  qed
  from none rest show ?thesis by (rule conjI)
qed

theorem no_match_aborts_before_any_attempt_witness:
  "map (\<lambda>dept. lower (nombre dept)) (get_departamentos_list browser_abc) =
     [''antioquia'', ''boyaca'', ''caldas''] \<and>
   map lower [''Narnia'', ''ATLANTIS''] = [''narnia'', ''atlantis''] \<and>
   setup_driver browser_abc = Setup_ok 7 \<and> navigate_to_servicios_page browser_abc \<and>
   get_departamentos_list browser_abc \<noteq> [] \<and>
   departamentos_a_descargar lower (get_departamentos_list browser_abc)
     [''Narnia'', ''ATLANTIS''] = [] \<and>
   attempts (trace (download_specific_departamentos lower browser_abc None
     [''Narnia'', ''ATLANTIS''])) = [] \<and>
   trace (download_specific_departamentos lower browser_abc None [''Narnia'', ''ATLANTIS'']) =
     [Navigate True, Get_catalog 3, Log_error_no_match, Quit 7] \<and>
   map (\<lambda>p. nombre (fst p))
     (attempts (trace (download_specific_departamentos lower browser_abc None
        [''Narnia'', ''ANTIOQUIA'']))) = [''Antioquia'']"
proof -
  have c: "map (\<lambda>dept. lower (nombre dept)) (get_departamentos_list browser_abc) =
     [''antioquia'', ''boyaca'', ''caldas'']"
    by code_simp
  have n: "map lower [''Narnia'', ''ATLANTIS''] = [''narnia'', ''atlantis'']"
    by code_simp
  have h: "\<forall>dept \<in> set (get_departamentos_list browser_abc). \<forall>n \<in> set [''Narnia'', ''ATLANTIS''].
             lower (nombre dept) \<noteq> lower n"
  proof (intro ballI)
    fix dept n
    assume dn: "dept \<in> set (get_departamentos_list browser_abc)"
      "n \<in> set [''Narnia'', ''ATLANTIS'']"
    from dn(1) have "lower (nombre dept) \<in>
        (\<lambda>dept. lower (nombre dept)) ` set (get_departamentos_list browser_abc)"
      by (rule imageI)
    then have "lower (nombre dept) \<in> set [''antioquia'', ''boyaca'', ''caldas'']"
      unfolding c [symmetric] by (simp only: set_map)
    moreover from dn(2) have "lower n \<in> lower ` set [''Narnia'', ''ATLANTIS'']"
      by (rule imageI)
    then have "lower n \<in> set [''narnia'', ''atlantis'']"
      unfolding n [symmetric] by (simp only: set_map)
    ultimately show "lower (nombre dept) \<noteq> lower n" by auto
  qed
  have s: "setup_driver browser_abc = Setup_ok 7" "navigate_to_servicios_page browser_abc"
    "get_departamentos_list browser_abc \<noteq> []" "length (get_departamentos_list browser_abc) = 3"
    by (simp_all add: browser_abc_def)
  have m: "map (\<lambda>p. nombre (fst p))
     (attempts (trace (download_specific_departamentos lower browser_abc None
        [''Narnia'', ''ANTIOQUIA'']))) = [''Antioquia'']"
    by code_simp
  note t = no_match_aborts_before_any_attempt [OF h, where drv = None]
  from t have a: "departamentos_a_descargar lower (get_departamentos_list browser_abc)
     [''Narnia'', ''ATLANTIS''] = []"
    by blast
  from t have b: "attempts (trace (download_specific_departamentos lower browser_abc None
     [''Narnia'', ''ATLANTIS''])) = []"
    by blast
  from t s have tr: "trace (download_specific_departamentos lower browser_abc None
       [''Narnia'', ''ATLANTIS'']) =
     [Navigate True, Get_catalog 3, Log_error_no_match, Quit 7]"
    by simp
  from c n s(1-3) a b tr m show ?thesis by blast
qed

text \<open>
  C9. In a batch of either mode whose \<^verbatim>\<open>setup_driver\<close> left a session in
  \<^verbatim>\<open>self.driver\<close>, \<^verbatim>\<open>quit\<close> is called on that session exactly once and on no other, as
  the last thing the batch does, whether \<^verbatim>\<open>setup_driver\<close> then raised, the navigation
  failed, the catalog was empty, no name matched or the loop ran to its end.
\<close>

theorem session_released_exactly_once:
  assumes "acquired (setup_driver b) = Some s"
  shows "quits (trace (download_all_departamentos b drv)) = [s] \<and>
         last (trace (download_all_departamentos b drv)) = Quit s \<and>
         driver (download_all_departamentos b drv) = Some s \<and>
         quits (trace (download_specific_departamentos lw b drv noms)) = [s] \<and>
         last (trace (download_specific_departamentos lw b drv noms)) = Quit s \<and>
         driver (download_specific_departamentos lw b drv noms) = Some s"
proof (cases "setup_driver b")
  case Setup_raises
  with assms show ?thesis by simp
next
  case (Setup_raises_with s')
  with assms have "s' = s" by simp
  with Setup_raises_with show ?thesis
    by (simp add: download_all_departamentos_def download_specific_departamentos_def
          finally_quit_def)
next
  case (Setup_ok s')
  with assms have s: "setup_driver b = Setup_ok s" by simp
  have dr: "driver (download_all_departamentos b drv) = Some s"
    "driver (download_specific_departamentos lw b drv noms) = Some s"
    using s by (simp_all add: download_all_departamentos_def download_specific_departamentos_def
                  Let_def)
  have a: "quits (trace (download_all_departamentos b drv)) = [s] \<and>
           last (trace (download_all_departamentos b drv)) = Quit s"
  proof (cases "navigate_to_servicios_page b \<and> get_departamentos_list b \<noteq> []")
    case True
    then show ?thesis
      by (simp add: trace_all_ok [OF s] quits_append loop_all_quits)
  next
    case False
    then have "\<not> navigate_to_servicios_page b \<or> get_departamentos_list b = []" by simp
    from trace_all_aborted [OF s this] show ?thesis by simp
  qed
  have f: "quits (trace (download_specific_departamentos lw b drv noms)) = [s] \<and>
           last (trace (download_specific_departamentos lw b drv noms)) = Quit s"
  proof (cases "navigate_to_servicios_page b \<and>
                departamentos_a_descargar lw (get_departamentos_list b) noms \<noteq> []")
    case True
    then show ?thesis
      by (simp add: trace_specific_ok [OF s] quits_append loop_specific_quits)
  next
    case False
    then have "\<not> navigate_to_servicios_page b \<or>
               departamentos_a_descargar lw (get_departamentos_list b) noms = []" by simp
    from trace_specific_aborted [OF s this] show ?thesis by simp
  qed
  from a f dr show ?thesis by simp
qed

theorem session_released_exactly_once_witness:
  "acquired (setup_driver browser_abc) = Some 7 \<and>
   quits (trace (download_all_departamentos browser_abc None)) = [7] \<and>
   last (trace (download_all_departamentos browser_abc None)) = Quit 7 \<and>
   quits (trace (download_specific_departamentos lower browser_abc None [''Narnia''])) = [7] \<and>
   last (trace (download_specific_departamentos lower browser_abc None [''Narnia''])) = Quit 7"
proof -
  have h: "acquired (setup_driver browser_abc) = Some 7"
    by (simp add: browser_abc_def)
  from session_released_exactly_once
      [OF h, where lw = lower and drv = None and noms = "[''Narnia'']"] h show ?thesis by simp
qed

text \<open>
  C6 at a catalog of three departamentos of which the second fails. The filtered batch
  attempts the three and logs no tally: lines 418-420 drop what
  \<^verbatim>\<open>download_departamento_data\<close> returns. The full batch over the same catalog ends with
  the tally of 2 successes and 1 failure.
\<close>

theorem filtered_batch_keeps_no_tally:
  "map (\<lambda>p. (nombre (fst p), succeeded (snd p)))
     (attempts (trace (download_specific_departamentos lower browser_abc None
        [''antioquia'', ''BOYACA'', ''Caldas'']))) =
     [(''Antioquia'', True), (''Boyaca'', False), (''Caldas'', True)] \<and>
   summaries (trace (download_specific_departamentos lower browser_abc None
      [''antioquia'', ''BOYACA'', ''Caldas''])) = [] \<and>
   map (\<lambda>p. (nombre (fst p), succeeded (snd p)))
     (attempts (trace (download_all_departamentos browser_abc None))) =
     [(''Antioquia'', True), (''Boyaca'', False), (''Caldas'', True)] \<and>
   summaries (trace (download_all_departamentos browser_abc None)) = [(2, 1)]"
  by code_simp

text \<open>
  C7 at the same catalog. The filtered batch sleeps three seconds after every attempt,
  the last one too, just before it releases the session (line 420 has no guard); the
  full batch sleeps between two attempts only (line 372).
\<close>

theorem filtered_batch_pauses_after_last_attempt:
  "steps (trace (download_specific_departamentos lower browser_abc None
      [''antioquia'', ''BOYACA'', ''Caldas''])) =
     [Try, Pause 3, Try, Pause 3, Try, Pause 3] \<and>
   take 2 (rev (trace (download_specific_departamentos lower browser_abc None
      [''antioquia'', ''BOYACA'', ''Caldas'']))) = [Quit 7, Sleep 3] \<and>
   steps (trace (download_specific_departamentos lower browser_abc None [''Antioquia''])) =
     [Try, Pause 3] \<and>
   steps (trace (download_all_departamentos browser_abc None)) =
     [Try, Pause 3, Try, Pause 3, Try]"
  by code_simp

section \<open>Further properties\<close>

text \<open>
  The full batch, once the browser started and the page was reached: it attempts every
  departamento of the catalog, in order, whatever the earlier attempts returned, and
  when the catalog is not empty it logs one tally, whose counts are those of the
  attempts that returned \<open>True\<close> and \<open>False\<close> and add up to the length of the catalog.
\<close>

theorem full_batch_tallies_every_region:
  assumes "setup_driver b = Setup_ok s" "navigate_to_servicios_page b"
  shows "attempts (trace (download_all_departamentos b drv)) =
           attempts_of (regions b) 0 (get_departamentos_list b) \<and>
         map fst (attempts (trace (download_all_departamentos b drv))) =
           get_departamentos_list b \<and>
         (get_departamentos_list b \<noteq> [] \<longrightarrow>
            (\<exists>S F. summaries (trace (download_all_departamentos b drv)) = [(S, F)] \<and>
               S = length (filter (\<lambda>p. succeeded (snd p))
                     (attempts (trace (download_all_departamentos b drv)))) \<and>
               F = length (filter (\<lambda>p. \<not> succeeded (snd p))
                     (attempts (trace (download_all_departamentos b drv)))) \<and>
               S + F = length (get_departamentos_list b)))"
proof (cases "get_departamentos_list b = []")
  case True
  with trace_all_aborted [OF assms(1), of drv] assms(2) show ?thesis by simp
next
  case False
  let ?L = "loop_all (regions b) (length (get_departamentos_list b)) 1
              (get_departamentos_list b) 0 0"
  have at: "attempts (trace (download_all_departamentos b drv)) =
      attempts_of (regions b) 0 (get_departamentos_list b)"
    using loop_all_attempts [of 1 "regions b" "length (get_departamentos_list b)"
        "get_departamentos_list b" 0 0]
    by (simp add: trace_all_ok [OF assms False] attempts_append)
  have su: "summaries (trace (download_all_departamentos b drv)) = [snd ?L]"
    by (simp add: trace_all_ok [OF assms False] summaries_append loop_all_summaries)
  have co: "snd ?L =
     (length (filter (\<lambda>p. succeeded (snd p)) (attempts_of (regions b) 0 (get_departamentos_list b))),
      length (filter (\<lambda>p. \<not> succeeded (snd p))
        (attempts_of (regions b) 0 (get_departamentos_list b))))"
    using loop_all_counters [of "regions b" "length (get_departamentos_list b)" 1
        "get_departamentos_list b" 0 0]
      loop_all_attempts [of 1 "regions b" "length (get_departamentos_list b)"
        "get_departamentos_list b" 0 0]
    by simp
  have sm: "length (filter (\<lambda>p. succeeded (snd p))
              (attempts_of (regions b) 0 (get_departamentos_list b))) +
            length (filter (\<lambda>p. \<not> succeeded (snd p))
              (attempts_of (regions b) 0 (get_departamentos_list b))) =
            length (get_departamentos_list b)"
    by (simp add: sum_length_filter_compl length_attempts_of)
  from at su co sm show ?thesis by (simp add: map_fst_attempts_of)
qed

theorem full_batch_tallies_every_region_witness:
  "setup_driver browser_abc = Setup_ok 7 \<and> navigate_to_servicios_page browser_abc \<and>
   get_departamentos_list browser_abc \<noteq> [] \<and>
   map fst (attempts (trace (download_all_departamentos browser_abc None))) =
     get_departamentos_list browser_abc \<and>
   (\<exists>S F. summaries (trace (download_all_departamentos browser_abc None)) = [(S, F)] \<and>
      S = length (filter (\<lambda>p. succeeded (snd p))
            (attempts (trace (download_all_departamentos browser_abc None)))) \<and>
      F = length (filter (\<lambda>p. \<not> succeeded (snd p))
            (attempts (trace (download_all_departamentos browser_abc None)))) \<and>
      S + F = length (get_departamentos_list browser_abc))"
proof -
  have h: "setup_driver browser_abc = Setup_ok 7" "navigate_to_servicios_page browser_abc"
    "get_departamentos_list browser_abc \<noteq> []"
    by (simp_all add: browser_abc_def)
  from full_batch_tallies_every_region [OF h(1) h(2), of None] h show ?thesis by blast
qed

text \<open>
  The full batch sleeps three seconds between two attempts and not after the last one.
\<close>

theorem full_batch_paced:
  assumes "setup_driver b = Setup_ok s" "navigate_to_servicios_page b"
  shows "steps (trace (download_all_departamentos b drv)) =
           paced 3 (length (get_departamentos_list b))"
proof (cases "get_departamentos_list b = []")
  case True
  with trace_all_aborted [OF assms(1), of drv] assms(2) show ?thesis by simp
next
  case False
  have "1 + length (get_departamentos_list b) = Suc (length (get_departamentos_list b))"
    by simp
  from loop_all_steps [OF this, of "regions b" 0 0] show ?thesis
    by (simp add: trace_all_ok [OF assms False] steps_append)
qed

theorem full_batch_paced_witness:
  "setup_driver browser_abc = Setup_ok 7 \<and> navigate_to_servicios_page browser_abc \<and>
   steps (trace (download_all_departamentos browser_abc None)) = [Try, Pause 3, Try, Pause 3, Try]"
proof -
  have h: "setup_driver browser_abc = Setup_ok 7" "navigate_to_servicios_page browser_abc"
    by (simp_all add: browser_abc_def)
  have p: "paced 3 (length (get_departamentos_list browser_abc)) =
             [Try, Pause 3, Try, Pause 3, Try]"
    by code_simp
  from full_batch_paced [OF h, of None] h p show ?thesis by simp
qed

text \<open>
  The filtered batch, once the browser started and the page was reached: it attempts
  every departamento of the catalog whose name was asked for, in the order of the
  catalog, whatever the earlier attempts returned; it sleeps three seconds after every
  attempt; it logs no tally.
\<close>

theorem filtered_batch_attempts_every_match:
  assumes "setup_driver b = Setup_ok s" "navigate_to_servicios_page b"
  shows "attempts (trace (download_specific_departamentos lw b drv noms)) =
           attempts_of (regions b) 0
             (departamentos_a_descargar lw (get_departamentos_list b) noms) \<and>
         map fst (attempts (trace (download_specific_departamentos lw b drv noms))) =
           departamentos_a_descargar lw (get_departamentos_list b) noms \<and>
         steps (trace (download_specific_departamentos lw b drv noms)) =
           concat (replicate
             (length (departamentos_a_descargar lw (get_departamentos_list b) noms))
             [Try, Pause 3]) \<and>
         summaries (trace (download_specific_departamentos lw b drv noms)) = []"
proof (cases "departamentos_a_descargar lw (get_departamentos_list b) noms = []")
  case True
  with trace_specific_aborted [OF assms(1), where lw = lw and noms = noms and drv = drv] show ?thesis by simp
next
  case False
  show ?thesis
    by (simp add: trace_specific_ok [OF assms False] attempts_append steps_append
          summaries_append loop_specific_attempts loop_specific_steps
          loop_specific_summaries map_fst_attempts_of)
qed

theorem filtered_batch_attempts_every_match_witness:
  "setup_driver browser_abc = Setup_ok 7 \<and> navigate_to_servicios_page browser_abc \<and>
   map (\<lambda>d. nombre d)
     (departamentos_a_descargar lower (get_departamentos_list browser_abc) [''caldas'', ''BOYACA'']) =
     [''Boyaca'', ''Caldas''] \<and>
   map fst (attempts (trace (download_specific_departamentos lower browser_abc None
       [''caldas'', ''BOYACA'']))) =
     departamentos_a_descargar lower (get_departamentos_list browser_abc) [''caldas'', ''BOYACA''] \<and>
   summaries (trace (download_specific_departamentos lower browser_abc None
       [''caldas'', ''BOYACA''])) = []"
proof -
  have h: "setup_driver browser_abc = Setup_ok 7" "navigate_to_servicios_page browser_abc"
    by (simp_all add: browser_abc_def)
  have m: "map (\<lambda>d. nombre d)
     (departamentos_a_descargar lower (get_departamentos_list browser_abc) [''caldas'', ''BOYACA'']) =
     [''Boyaca'', ''Caldas'']"
    by code_simp
  note t = filtered_batch_attempts_every_match
      [OF h, where lw = lower and drv = None and noms = "[''caldas'', ''BOYACA'']"]
  from t have a: "map fst (attempts (trace (download_specific_departamentos lower browser_abc None
       [''caldas'', ''BOYACA'']))) =
     departamentos_a_descargar lower (get_departamentos_list browser_abc) [''caldas'', ''BOYACA'']"
    by blast
  from t have b: "summaries (trace (download_specific_departamentos lower browser_abc None
       [''caldas'', ''BOYACA''])) = []"
    by blast
  from h m a b show ?thesis by blast
qed

text \<open>
  A run that finds a new file reports success exactly when its filesystem calls go
  through: the removal, where a file with the target name is there, and the rename are
  not refused, the target name is the path of a file in a directory that exists, and the
  new file does not bear the target name already.
\<close>

theorem success_iff_calls_go_through:
  assumes ns: "\<forall>e. snapshot w \<noteq> Unreadable e"
    and found: "poll (polls w) (archivos_antes_de (snapshot w)) timeout 0 = Found a d k"
  shows "returned (wait_for_download_and_rename w nom timeout) \<longleftrightarrow>
     (path_exists d (nom @ snd (splitext a)) \<longrightarrow> \<not> remove_denied w) \<and>
     \<not> rename_denied w \<and>
     \<not> names_a_directory (nom @ snd (splitext a)) \<and>
     (plain (os w) (nom @ snd (splitext a)) \<or> target_dir_exists w) \<and>
     a \<noteq> nom @ snd (splitext a)"
proof
  assume ret: "returned (wait_for_download_and_rename w nom timeout)"
  have w: "wait_for_download_and_rename w nom timeout = renombrar w d nom a k"
    using ns found by (cases "snapshot w") (simp_all add: wait_for_download_and_rename_def)
  from ret have r: "returned (renombrar w d nom a k)" by (simp add: w)
  from renombrar_success [OF r] have neq: "a \<noteq> nom @ snd (splitext a)" by blast
  show "(path_exists d (nom @ snd (splitext a)) \<longrightarrow> \<not> remove_denied w) \<and>
     \<not> rename_denied w \<and>
     \<not> names_a_directory (nom @ snd (splitext a)) \<and>
     (plain (os w) (nom @ snd (splitext a)) \<or> target_dir_exists w) \<and>
     a \<noteq> nom @ snd (splitext a)"
  proof (cases "path_exists d (nom @ snd (splitext a))")
    case True
    from r True obtain d1 where
      rm: "os_remove (remove_denied w) d (nom @ snd (splitext a)) = Inr d1"
      by (cases "os_remove (remove_denied w) d (nom @ snd (splitext a))")
        (simp_all add: renombrar_def Let_def)
    from r True rm obtain d2 where
      "os_rename (os w) (rename_denied w) (target_dir_exists w) d1 a (nom @ snd (splitext a)) =
         Inr d2"
      by (cases "os_rename (os w) (rename_denied w) (target_dir_exists w) d1 a
                   (nom @ snd (splitext a))")
        (simp_all add: renombrar_def Let_def)
    from os_rename_Inr [OF this] os_remove_Inr [OF rm] neq show ?thesis by blast
  next
    case False
    from r False obtain d2 where
      "os_rename (os w) (rename_denied w) (target_dir_exists w) d a (nom @ snd (splitext a)) =
         Inr d2"
      by (cases "os_rename (os w) (rename_denied w) (target_dir_exists w) d a
                   (nom @ snd (splitext a))")
        (simp_all add: renombrar_def Let_def)
    from os_rename_Inr [OF this] False neq show ?thesis by blast
  qed
next
  assume c: "(path_exists d (nom @ snd (splitext a)) \<longrightarrow> \<not> remove_denied w) \<and>
     \<not> rename_denied w \<and>
     \<not> names_a_directory (nom @ snd (splitext a)) \<and>
     (plain (os w) (nom @ snd (splitext a)) \<or> target_dir_exists w) \<and>
     a \<noteq> nom @ snd (splitext a)"
  from poll_Found [OF found] have "seleccionar (archivos_antes_de (snapshot w)) d = Some a"
    by simp
  from seleccionar_Some [OF this] obtain c0 where c0: "map_of d a = Some c0"
    by (auto simp: in_listdir_iff)
  have w: "wait_for_download_and_rename w nom timeout = renombrar w d nom a k"
    using ns found by (cases "snapshot w") (simp_all add: wait_for_download_and_rename_def)
  from c c0 have c1: "map_of (unlink (nom @ snd (splitext a)) d) a = Some c0"
    by (simp add: map_of_unlink)
  have gone: "\<not> path_exists (unlink (nom @ snd (splitext a)) d) (nom @ snd (splitext a))"
    by (simp add: path_exists_def map_of_unlink)
  have "returned (renombrar w d nom a k)"
  proof (cases "path_exists d (nom @ snd (splitext a))")
    case True
    with c c1 gone show ?thesis
      by (auto simp add: renombrar_def Let_def os_remove_def os_rename_def)
  next
    case False
    with c c0 show ?thesis
      by (auto simp add: renombrar_def Let_def os_rename_def)
  qed
  then show "returned (wait_for_download_and_rename w nom timeout)" by (simp add: w)
qed

theorem success_iff_calls_go_through_witness:
  "(\<forall>e. snapshot scenario_arrives \<noteq> Unreadable e) \<and>
   poll (polls scenario_arrives) (archivos_antes_de (snapshot scenario_arrives)) 30 0 =
     Found ''export.xls'' [(''export.xls'', ''data'')] 0 \<and>
   \<not> plain (os scenario_arrives) (''Valle/Cauca'' @ snd (splitext ''export.xls'')) \<and>
   \<not> target_dir_exists scenario_arrives \<and>
   \<not> returned (wait_for_download_and_rename scenario_arrives ''Valle/Cauca'' 30) \<and>
   wait_for_download_and_rename scenario_arrives ''Valle/Cauca'' 30 =
     \<lparr>returned = False, effects = [], disk = Listing [(''export.xls'', ''data'')],
      log = [Error_renaming FileNotFoundError], slept = 0\<rparr>"
proof -
  have ns: "\<forall>e. snapshot scenario_arrives \<noteq> Unreadable e"
    by (simp add: scenario_arrives_def)
  have p: "poll (polls scenario_arrives) (archivos_antes_de (snapshot scenario_arrives)) 30 0 =
     Found ''export.xls'' [(''export.xls'', ''data'')] 0"
    by code_simp
  have np: "\<not> plain (os scenario_arrives) (''Valle/Cauca'' @ snd (splitext ''export.xls''))"
    by code_simp
  have nt: "\<not> target_dir_exists scenario_arrives"
    by (simp add: scenario_arrives_def)
  from success_iff_calls_go_through [OF ns p, of "''Valle/Cauca''"] np nt
  have nr: "\<not> returned (wait_for_download_and_rename scenario_arrives ''Valle/Cauca'' 30)"
    by blast
  have ev: "wait_for_download_and_rename scenario_arrives ''Valle/Cauca'' 30 =
     \<lparr>returned = False, effects = [], disk = Listing [(''export.xls'', ''data'')],
      log = [Error_renaming FileNotFoundError], slept = 0\<rparr>"
    by code_simp
  from ns p np nt nr ev show ?thesis by blast
qed

text \<open>
  A new file that already bears the target name is taken for the earlier artifact: the
  run removes it, the rename then finds no source, and the run returns failure with the
  download gone.
\<close>

theorem new_file_named_as_target_is_removed:
  assumes "\<forall>e. snapshot w \<noteq> Unreadable e"
    and "poll (polls w) (archivos_antes_de (snapshot w)) timeout 0 = Found a d k"
    and "\<not> remove_denied w"
    and "a = nom @ snd (splitext a)"
  shows "\<not> returned (wait_for_download_and_rename w nom timeout) \<and>
         effects (wait_for_download_and_rename w nom timeout) = [Remove a] \<and>
         log (wait_for_download_and_rename w nom timeout) =
           [Info_existing_removed a, Error_renaming FileNotFoundError] \<and>
         lookup (undisturbed w (wait_for_download_and_rename w nom timeout)) a \<noteq> None \<and>
         lookup (disk (wait_for_download_and_rename w nom timeout)) a = None"
proof -
  from poll_Found [OF assms(2)] have pk: "polls w k = Listing d"
    and "seleccionar (archivos_antes_de (snapshot w)) d = Some a"
    by simp_all
  from seleccionar_Some [OF this(2)] obtain c where c: "map_of d a = Some c"
    by (auto simp: in_listdir_iff)
  have w: "wait_for_download_and_rename w nom timeout = renombrar w d nom a k"
    using assms(1,2) by (cases "snapshot w") (simp_all add: wait_for_download_and_rename_def)
  have ex: "path_exists d a" using c by (simp add: path_exists_def)
  have r: "renombrar w d nom a k =
     \<lparr>returned = False, effects = [Remove a], disk = Listing (unlink a d),
      log = [Info_existing_removed a, Error_renaming FileNotFoundError], slept = k\<rparr>"
    using ex assms(3) assms(4) [symmetric]
    by (simp add: renombrar_def Let_def os_remove_def os_rename_def map_of_unlink)
  have u: "undisturbed w (wait_for_download_and_rename w nom timeout) = Listing d"
    using assms(1) pk by (simp add: undisturbed_polls w r)
  have l1: "lookup (undisturbed w (wait_for_download_and_rename w nom timeout)) a \<noteq> None"
    using c by (simp add: u lookup_def)
  have l2: "lookup (disk (wait_for_download_and_rename w nom timeout)) a = None"
    by (simp add: w r lookup_def map_of_unlink)
  have l3: "\<not> returned (wait_for_download_and_rename w nom timeout) \<and>
         effects (wait_for_download_and_rename w nom timeout) = [Remove a] \<and>
         log (wait_for_download_and_rename w nom timeout) =
           [Info_existing_removed a, Error_renaming FileNotFoundError]"
    by (simp add: w r)
  from l1 l2 l3 show ?thesis by blast
qed

theorem new_file_named_as_target_is_removed_witness:
  "(\<forall>e. snapshot scenario_same_name \<noteq> Unreadable e) \<and>
   poll (polls scenario_same_name) (archivos_antes_de (snapshot scenario_same_name)) 30 0 =
     Found ''Antioquia.xls'' [(''Antioquia.xls'', ''data'')] 0 \<and>
   \<not> remove_denied scenario_same_name \<and>
   ''Antioquia.xls'' = ''Antioquia'' @ snd (splitext ''Antioquia.xls'') \<and>
   \<not> returned (wait_for_download_and_rename scenario_same_name ''Antioquia'' 30) \<and>
   effects (wait_for_download_and_rename scenario_same_name ''Antioquia'' 30) =
     [Remove ''Antioquia.xls''] \<and>
   disk (wait_for_download_and_rename scenario_same_name ''Antioquia'' 30) = Listing []"
proof -
  have ns: "\<forall>e. snapshot scenario_same_name \<noteq> Unreadable e"
    by (simp add: scenario_same_name_def)
  have p: "poll (polls scenario_same_name) (archivos_antes_de (snapshot scenario_same_name)) 30 0 =
     Found ''Antioquia.xls'' [(''Antioquia.xls'', ''data'')] 0"
    by code_simp
  have f: "\<not> remove_denied scenario_same_name"
    by (simp add: scenario_same_name_def)
  have n: "''Antioquia.xls'' = ''Antioquia'' @ snd (splitext ''Antioquia.xls'')"
    by code_simp
  have d: "disk (wait_for_download_and_rename scenario_same_name ''Antioquia'' 30) = Listing []"
    by code_simp
  from new_file_named_as_target_is_removed [OF ns p f n] ns p f n d show ?thesis by simp
qed

text \<open>
  When \<^verbatim>\<open>setup_driver\<close> raises before it assigns \<^verbatim>\<open>self.driver\<close>, the \<^verbatim>\<open>finally\<close> clause
  calls \<^verbatim>\<open>quit\<close> on whatever session an earlier batch of the same object left there,
  and on nothing when the object is fresh.
\<close>

theorem failed_setup_quits_the_earlier_session:
  assumes "setup_driver b = Setup_raises"
  shows "quits (trace (download_all_departamentos b (Some old))) = [old] \<and>
         quits (trace (download_specific_departamentos lw b (Some old) noms)) = [old] \<and>
         quits (trace (download_all_departamentos b None)) = [] \<and>
         quits (trace (download_specific_departamentos lw b None noms)) = []"
  using assms
  by (simp add: download_all_departamentos_def download_specific_departamentos_def
        finally_quit_def)

theorem failed_setup_quits_the_earlier_session_witness:
  "setup_driver browser_down = Setup_raises \<and>
   quits (trace (download_all_departamentos browser_abc None)) = [7] \<and>
   driver (download_all_departamentos browser_abc None) = Some 7 \<and>
   quits (trace (download_all_departamentos browser_down
     (driver (download_all_departamentos browser_abc None)))) = [7]"
proof -
  have h: "setup_driver browser_down = Setup_raises"
    by (simp add: browser_down_def)
  have d: "driver (download_all_departamentos browser_abc None) = Some 7"
    by (simp add: download_all_departamentos_def browser_abc_def Let_def)
  have q: "quits (trace (download_all_departamentos browser_abc None)) = [7]"
    by code_simp
  from failed_setup_quits_the_earlier_session
      [OF h, where old = 7 and lw = lower and noms = "[]"] h d q show ?thesis by simp
qed

end
